theory Spec2Isabelle
  imports Complex_Main "HOL-Library.AList"
begin

section \<open>Library layer: Node's POSIX path functions\<close>

text \<open>
  The engine (\<^verbatim>\<open>src/sync.ts\<close>) calls \<^verbatim>\<open>path.basename\<close>, \<^verbatim>\<open>path.dirname\<close>,
  \<^verbatim>\<open>path.join\<close>, \<^verbatim>\<open>path.relative\<close> and \<^verbatim>\<open>String.prototype.split(path.sep)\<close>.
  They are Node built-ins, modelled here for POSIX (\<^verbatim>\<open>path.sep = '/'\<close>): a path is a
  string, a resolved path a list of segments.
\<close>

text \<open>\<^verbatim>\<open>s.split('/')\<close>: every separator splits, empty pieces are kept.\<close>

fun split_sep :: "string \<Rightarrow> string list" where
  "split_sep [] = [[]]"
| "split_sep (c # cs) =
     (if c = CHR ''/'' then [] # split_sep cs
      else (case split_sep cs of [] \<Rightarrow> [[c]] | x # xs \<Rightarrow> (c # x) # xs))"

fun join_sep :: "string list \<Rightarrow> string" where
  "join_sep [] = []"
| "join_sep [x] = x"
| "join_sep (x # y # ys) = x @ ''/'' @ join_sep (y # ys)"

definition dropWhileEnd :: "('a \<Rightarrow> bool) \<Rightarrow> 'a list \<Rightarrow> 'a list" where
  "dropWhileEnd P xs = rev (dropWhile P (rev xs))"

definition takeWhileEnd :: "('a \<Rightarrow> bool) \<Rightarrow> 'a list \<Rightarrow> 'a list" where
  "takeWhileEnd P xs = rev (takeWhile P (rev xs))"

text \<open>\<^verbatim>\<open>path.basename(p)\<close>: trailing separators are dropped, then the last run of
  characters other than the separator is returned.\<close>

definition path_basename :: "string \<Rightarrow> string" where
  "path_basename p =
     takeWhileEnd (\<lambda>c. c \<noteq> CHR ''/'') (dropWhileEnd (\<lambda>c. c = CHR ''/'') p)"

text \<open>\<^verbatim>\<open>path.dirname(p)\<close>: Node scans from the end down to index 1, skips trailing
  separators and the last segment, and cuts at the separator it stops on.\<close>

definition path_dirname :: "string \<Rightarrow> string" where
  "path_dirname p =
     (case p of
        [] \<Rightarrow> ''.''
      | c0 # rest \<Rightarrow>
          (let r = dropWhileEnd (\<lambda>c. c \<noteq> CHR ''/'') (dropWhileEnd (\<lambda>c. c = CHR ''/'') rest)
           in if r = [] then (if c0 = CHR ''/'' then ''/'' else ''.'')
              else if c0 = CHR ''/'' \<and> length r = 1 then ''//''
              else take (length r) p))"

text \<open>Node's \<^verbatim>\<open>normalizeString\<close> on segments: empty and \<^verbatim>\<open>.\<close> segments vanish,
  \<^verbatim>\<open>..\<close> removes the segment before it, or stays when there is none to remove and the
  path is relative. The accumulator holds the result reversed.\<close>

fun normalizeSegments :: "bool \<Rightarrow> string list \<Rightarrow> string list \<Rightarrow> string list" where
  "normalizeSegments allowAboveRoot [] acc = rev acc"
| "normalizeSegments allowAboveRoot (s # ss) acc =
     (if s = [] \<or> s = ''.'' then normalizeSegments allowAboveRoot ss acc
      else if s = ''..'' then
        (case acc of
           [] \<Rightarrow> normalizeSegments allowAboveRoot ss (if allowAboveRoot then [''..''] else [])
         | a # as \<Rightarrow>
             if a = ''..''
             then normalizeSegments allowAboveRoot ss (if allowAboveRoot then ''..'' # acc else acc)
             else normalizeSegments allowAboveRoot ss as)
      else normalizeSegments allowAboveRoot ss (s # acc))"

definition isAbsolute :: "string \<Rightarrow> bool" where
  "isAbsolute p = (case p of [] \<Rightarrow> False | c # _ \<Rightarrow> c = CHR ''/'')"

definition path_normalize :: "string \<Rightarrow> string" where
  "path_normalize p =
     (if p = [] then ''.''
      else
        (let trailing = (last p = CHR ''/'');
             s = join_sep (normalizeSegments (\<not> isAbsolute p) (split_sep p) [])
         in if s = [] then (if isAbsolute p then ''/'' else if trailing then ''./'' else ''.'')
            else (if isAbsolute p then ''/'' else []) @ s @ (if trailing then ''/'' else [])))"

text \<open>\<^verbatim>\<open>path.join(a, b)\<close>: the non-empty arguments joined by the separator, normalised.\<close>

definition path_join :: "string \<Rightarrow> string \<Rightarrow> string" where
  "path_join a b =
     (if a = [] \<and> b = [] then ''.''
      else path_normalize (if a = [] then b else if b = [] then a else a @ ''/'' @ b))"

text \<open>\<^verbatim>\<open>path.resolve(p)\<close> against the working directory \<open>wd\<close> (an absolute path), as
  the list of its segments.\<close>

definition path_resolve :: "string \<Rightarrow> string \<Rightarrow> string list" where
  "path_resolve wd p =
     normalizeSegments False (split_sep (if isAbsolute p then p else wd @ ''/'' @ p)) []"

fun dropCommon :: "string list \<Rightarrow> string list \<Rightarrow> string list \<times> string list" where
  "dropCommon (x # xs) (y # ys) = (if x = y then dropCommon xs ys else (x # xs, y # ys))"
| "dropCommon xs ys = (xs, ys)"

text \<open>\<^verbatim>\<open>path.relative(from, to)\<close>: both are resolved, the common leading segments are
  dropped, and each remaining segment of \<open>from\<close> becomes \<^verbatim>\<open>..\<close>.\<close>

definition path_relative :: "string \<Rightarrow> string \<Rightarrow> string \<Rightarrow> string" where
  "path_relative wd from to =
     (if from = to then []
      else (case dropCommon (path_resolve wd from) (path_resolve wd to) of
              (f, t) \<Rightarrow> join_sep (replicate (length f) ''..'' @ t)))"

section \<open>The local filesystem\<close>

text \<open>
  The engine uses \<^verbatim>\<open>fs.existsSync\<close>, \<^verbatim>\<open>fs.statSync\<close> (\<^verbatim>\<open>isDirectory()\<close>, \<^verbatim>\<open>mtimeMs\<close>),
  \<^verbatim>\<open>fs.readFileSync\<close>, \<^verbatim>\<open>fs.mkdirSync(dir, {recursive: true})\<close> and
  \<^verbatim>\<open>fs.writeFileSync\<close>. The filesystem is a map from resolved paths to nodes. A
  timestamp is a number of milliseconds (\<^verbatim>\<open>mtimeMs\<close> and \<^verbatim>\<open>Date.getTime()\<close> of a
  well-formed date are finite numbers, compared as the reals they denote). The
  \<open>n\<close>-th write is stamped \<open>stamps n\<close>, whatever the clock says then.
\<close>

datatype error = ENOENT | EISDIR | ENOTDIR | SyntaxError | GDriveError string

record fnode =
  isDirectory :: bool
  mtimeMs :: real
  bytes :: string

record filesystem =
  nodes :: "string list \<rightharpoonup> fnode"
  cwd :: string
  stamps :: "nat \<Rightarrow> real"
  nwrites :: nat

definition existsSync :: "filesystem \<Rightarrow> string \<Rightarrow> bool" where
  "existsSync fs p = (nodes fs (path_resolve (cwd fs) p) \<noteq> None)"

definition statSync :: "filesystem \<Rightarrow> string \<Rightarrow> error + fnode" where
  "statSync fs p =
     (case nodes fs (path_resolve (cwd fs) p) of None \<Rightarrow> Inl ENOENT | Some n \<Rightarrow> Inr n)"

definition readFileSync :: "filesystem \<Rightarrow> string \<Rightarrow> error + string" where
  "readFileSync fs p =
     (case nodes fs (path_resolve (cwd fs) p) of
        None \<Rightarrow> Inl ENOENT
      | Some n \<Rightarrow> if isDirectory n then Inl EISDIR else Inr (bytes n))"

text \<open>\<^verbatim>\<open>fs.mkdirSync(dir, {recursive: true})\<close>: every missing ancestor is created; it
  throws when an ancestor, or \<open>dir\<close> itself, is a regular file.\<close>

definition ancestors :: "string list \<Rightarrow> string list list" where
  "ancestors s = map (\<lambda>i. take i s) [0..<Suc (length s)]"

definition mkdirSync :: "filesystem \<Rightarrow> string \<Rightarrow> error + filesystem" where
  "mkdirSync fs dir =
     (let ps = ancestors (path_resolve (cwd fs) dir) in
      if list_ex (\<lambda>p. case nodes fs p of None \<Rightarrow> False | Some n \<Rightarrow> \<not> isDirectory n) ps
      then Inl ENOTDIR
      else Inr (fs\<lparr>nodes :=
                    fold (\<lambda>p m. if m p = None
                                 then m(p \<mapsto> \<lparr>isDirectory = True,
                                               mtimeMs = stamps fs (nwrites fs), bytes = []\<rparr>)
                                 else m) ps (nodes fs),
                  nwrites := Suc (nwrites fs)\<rparr>))"

text \<open>\<^verbatim>\<open>fs.writeFileSync(p, content)\<close>: throws on a directory and where the parent is
  not a directory; otherwise the file holds \<open>content\<close> and carries a new stamp.\<close>

definition writeFileSync :: "filesystem \<Rightarrow> string \<Rightarrow> string \<Rightarrow> error + filesystem" where
  "writeFileSync fs p content =
     (let s = path_resolve (cwd fs) p;
          written = fs\<lparr>nodes := (nodes fs)(s \<mapsto> \<lparr>isDirectory = False,
                                       mtimeMs = stamps fs (nwrites fs), bytes = content\<rparr>),
                      nwrites := Suc (nwrites fs)\<rparr>
      in case nodes fs s of
           Some n \<Rightarrow> if isDirectory n then Inl EISDIR else Inr written
         | None \<Rightarrow>
             (case nodes fs (butlast s) of
                None \<Rightarrow> Inl ENOENT
              | Some d \<Rightarrow> if isDirectory d \<and> s \<noteq> [] then Inr written else Inl ENOTDIR))"

section \<open>The replica state and the conflict decision\<close>

text \<open>\<^verbatim>\<open>FileState\<close> and \<^verbatim>\<open>SyncState\<close> of \<^verbatim>\<open>src/sync.ts\<close>. A JavaScript object used as
  a dictionary is an association list in insertion order.\<close>

record FileState =
  gdriveId :: string
  localMtime :: real
  gdriveMtime :: real

record SyncState =
  files :: "(string \<times> FileState) list"
  folders :: "(string \<times> string) list"

datatype action = Download | Skip | LocalNewer

text \<open>\<^verbatim>\<open>shouldDownloadFile(relativePath, localPath, remoteMtime)\<close>, lines 229-272. The
  three results are the source's \<^verbatim>\<open>'download'\<close>, \<^verbatim>\<open>'skip'\<close> and \<^verbatim>\<open>'local-newer'\<close>.\<close>

definition shouldDownloadFile ::
  "SyncState \<Rightarrow> filesystem \<Rightarrow> string \<Rightarrow> string \<Rightarrow> real \<Rightarrow> error + action" where
  "shouldDownloadFile st fs relativePath localPath remoteMtime =
     (case map_of (files st) relativePath of
        None \<Rightarrow>
          if \<not> existsSync fs localPath then Inr Download
          else (case statSync fs localPath of
                  Inl e \<Rightarrow> Inl e
                | Inr stats \<Rightarrow>
                    if remoteMtime > mtimeMs stats then Inr Download else Inr LocalNewer)
      | Some existing \<Rightarrow>
          if remoteMtime \<le> gdriveMtime existing then Inr Skip
          else if \<not> existsSync fs localPath then Inr Download
          else (case statSync fs localPath of
                  Inl e \<Rightarrow> Inl e
                | Inr stats \<Rightarrow>
                    if mtimeMs stats \<le> localMtime existing then Inr Download
                    else if remoteMtime > mtimeMs stats then Inr Download
                    else Inr LocalNewer))"

section \<open>The remote store as the engine sees it\<close>

text \<open>\<^verbatim>\<open>GDriveFile\<close> of \<^verbatim>\<open>gdrive.ts\<close>. \<open>modifiedTime\<close> holds
  \<^verbatim>\<open>new Date(file.modifiedTime).getTime()\<close>, the only way the engine reads it;
  \<^verbatim>\<open>parents\<close> is never read by the engine and left out.\<close>

record GDriveFile =
  file_id :: string
  name :: string
  mimeType :: string
  modifiedTime :: real

text \<open>
  What the engine holds in \<^verbatim>\<open>parentId\<close> and hands to the client as the parent of a
  folder or file. It is typed \<^verbatim>\<open>string\<close>, and it is the ID of a folder wherever it comes
  from the configuration, from \<^verbatim>\<open>findFolder\<close>, from \<^verbatim>\<open>createFolder\<close> or from an entry of
  \<open>folders\<close>. Read from \<^verbatim>\<open>this.state.folders[currentPath]\<close> it can also be a property that
  the plain object \<open>folders\<close> inherits from \<^verbatim>\<open>Object.prototype\<close> (a function, or the
  prototype itself under \<^verbatim>\<open>__proto__\<close>): \<open>InheritedProperty\<close> with the name of the property.
\<close>

datatype parentRef = FolderId string | InheritedProperty string

text \<open>The methods of \<^verbatim>\<open>GDriveClient\<close> that the engine calls. Each one returns or
  throws, and may change the remote store \<open>'r\<close> either way. The theorems below hold for
  every such client.\<close>

record 'r GDriveClient =
  listFilesRecursive :: "string \<Rightarrow> 'r \<Rightarrow> (error + (string \<times> GDriveFile) list) \<times> 'r"
  downloadFile :: "string \<Rightarrow> 'r \<Rightarrow> (error + string) \<times> 'r"
  createFolder :: "string \<Rightarrow> parentRef \<Rightarrow> 'r \<Rightarrow> (error + GDriveFile) \<times> 'r"
  findFolder :: "string \<Rightarrow> parentRef \<Rightarrow> 'r \<Rightarrow> (error + GDriveFile option) \<times> 'r"
  uploadFile :: "string \<Rightarrow> string \<Rightarrow> parentRef \<Rightarrow> 'r \<Rightarrow> (error + GDriveFile) \<times> 'r"
  updateFile :: "string \<Rightarrow> string \<Rightarrow> 'r \<Rightarrow> (error + GDriveFile) \<times> 'r"
  deleteFile :: "string \<Rightarrow> 'r \<Rightarrow> (error + unit) \<times> 'r"

text \<open>A remote call as it is issued, with its arguments, and how it ended.\<close>

datatype call =
    ListFilesRecursive string
  | DownloadFile string
  | CreateFolder string parentRef
  | FindFolder string parentRef
  | UploadFile string string parentRef
  | UpdateFile string string
  | DeleteFile string

datatype outcome = Returned | Threw

section \<open>The engine\<close>

record Config =
  localPath :: string
  gdriveFolderId :: string

definition CONFIG_FILENAME :: string where
  "CONFIG_FILENAME = ''.gdrive-folder-sync.json''"

definition STATE_FILENAME :: string where
  "STATE_FILENAME = ''.gdrive-folder-sync-state.json''"

definition getExcludedFiles :: "string list" where
  "getExcludedFiles = [CONFIG_FILENAME, STATE_FILENAME, ''.DS_Store'']"

text \<open>
  What a \<^verbatim>\<open>SyncEngine\<close> acts on: its in-memory \<open>state\<close>, the local \<open>disk\<close>, the remote
  store behind \<^verbatim>\<open>this.gdrive\<close>, the document \<^verbatim>\<open>saveState\<close> last wrote to the state file
  (\<open>persisted\<close>), and the remote calls issued so far (\<open>calls\<close>), each with the relative
  path the engine was working on and with its outcome.
\<close>

record 'r world =
  state :: SyncState
  disk :: filesystem
  gdrive :: 'r
  persisted :: "SyncState option"
  calls :: "(string \<times> call \<times> outcome) list"

definition remote ::
  "string \<Rightarrow> call \<Rightarrow> ('r \<Rightarrow> (error + 'a) \<times> 'r) \<Rightarrow> 'r world \<Rightarrow> (error + 'a) \<times> 'r world" where
  "remote who c method w =
     (case method (gdrive w) of
        (res, r) \<Rightarrow>
          (res, w\<lparr>gdrive := r,
                  calls := calls w @ [(who, c, if isl res then Threw else Returned)]\<rparr>))"

text \<open>\<^verbatim>\<open>this.state.files[k] = v\<close> and \<^verbatim>\<open>delete this.state.files[k]\<close>. A read
  \<^verbatim>\<open>this.state.files[k]\<close> is \<open>map_of (files st) k\<close> throughout, the entries of \<open>files\<close>
  itself: relative paths that name a property of \<^verbatim>\<open>Object.prototype\<close> are left out of
  the model of \<open>files\<close>. For \<open>folders\<close> they are modelled, below.\<close>

definition setFile :: "string \<Rightarrow> FileState \<Rightarrow> 'r world \<Rightarrow> 'r world" where
  "setFile k v w = w\<lparr>state := (state w)\<lparr>files := AList.update k v (files (state w))\<rparr>\<rparr>"

definition deleteRecord :: "string \<Rightarrow> 'r world \<Rightarrow> 'r world" where
  "deleteRecord k w = w\<lparr>state := (state w)\<lparr>files := AList.delete k (files (state w))\<rparr>\<rparr>"

text \<open>
  The names of the properties of \<^verbatim>\<open>Object.prototype\<close>. The \<open>folders\<close> object is a plain
  object (the literal \<^verbatim>\<open>{}\<close> of \<^verbatim>\<open>loadState\<close>, or what \<^verbatim>\<open>JSON.parse\<close> built), so
  reading one of these names from it gives the inherited property unless \<open>folders\<close> has an
  entry of its own under that name.
\<close>

definition objectPrototypeNames :: "string list" where
  "objectPrototypeNames =
     [''constructor'', ''__defineGetter__'', ''__defineSetter__'', ''hasOwnProperty'',
      ''__lookupGetter__'', ''__lookupSetter__'', ''isPrototypeOf'', ''propertyIsEnumerable'',
      ''toString'', ''valueOf'', ''__proto__'', ''toLocaleString'']"

text \<open>\<^verbatim>\<open>this.state.folders[k]\<close>, with \<open>None\<close> for \<^verbatim>\<open>undefined\<close>: the entry of \<open>folders\<close>
  itself first, then the inherited property.\<close>

definition readFolder :: "SyncState \<Rightarrow> string \<Rightarrow> parentRef option" where
  "readFolder st k =
     (case map_of (folders st) k of
        Some v \<Rightarrow> Some (FolderId v)
      | None \<Rightarrow> if k \<in> set objectPrototypeNames then Some (InheritedProperty k) else None)"

text \<open>\<^verbatim>\<open>this.state.folders[k] = v\<close> for a string \<open>v\<close>. Under \<^verbatim>\<open>__proto__\<close> the assignment
  reaches the inherited setter, which ignores a string, unless \<open>folders\<close> has an entry of
  its own there (\<^verbatim>\<open>JSON.parse\<close> makes one).\<close>

definition setFolder :: "string \<Rightarrow> string \<Rightarrow> 'r world \<Rightarrow> 'r world" where
  "setFolder k v w =
     (if k = ''__proto__'' \<and> map_of (folders (state w)) k = None then w
      else w\<lparr>state := (state w)\<lparr>folders := AList.update k v (folders (state w))\<rparr>\<rparr>)"

text \<open>\<^verbatim>\<open>saveState\<close>, lines 170-172.\<close>

definition saveState :: "'r world \<Rightarrow> 'r world" where
  "saveState w = w\<lparr>persisted := Some (state w)\<rparr>"

text \<open>\<^verbatim>\<open>isExcluded\<close>, lines 174-178, and \<^verbatim>\<open>getRelativePath\<close>, lines 180-182.\<close>

definition isExcluded :: "string \<Rightarrow> bool" where
  "isExcluded relativePath = (path_basename relativePath \<in> set getExcludedFiles)"

definition getRelativePath :: "Config \<Rightarrow> filesystem \<Rightarrow> string \<Rightarrow> string" where
  "getRelativePath config fs absolutePath =
     path_relative (cwd fs) (localPath config) absolutePath"

text \<open>\<^verbatim>\<open>const existingId = this.state.folders[currentPath]; if (existingId)\<close>, lines
  192-193: \<^verbatim>\<open>undefined\<close> and the empty string are falsy, every other string is truthy, and
  so is every inherited property (a function or an object).\<close>

definition cachedFolder :: "SyncState \<Rightarrow> string \<Rightarrow> parentRef option" where
  "cachedFolder st currentPath =
     (case readFolder st currentPath of
        None \<Rightarrow> None
      | Some (FolderId existingId) \<Rightarrow>
          if existingId = [] then None else Some (FolderId existingId)
      | Some (InheritedProperty p) \<Rightarrow> Some (InheritedProperty p))"

text \<open>The body of the loop of \<^verbatim>\<open>ensureFolderExists\<close>, lines 192-208, for one
  part: \<open>current\<close> is the cumulative path, the result the new \<^verbatim>\<open>parentId\<close>.\<close>

definition ensureFolderStep ::
  "'r GDriveClient \<Rightarrow> string \<Rightarrow> string \<Rightarrow> parentRef \<Rightarrow> 'r world
     \<Rightarrow> (error + parentRef) \<times> 'r world" where
  "ensureFolderStep g part current parentId w =
     (case cachedFolder (state w) current of
        Some existingId \<Rightarrow> (Inr existingId, w)
      | None \<Rightarrow>
          (case remote current (FindFolder part parentId) (findFolder g part parentId) w of
             (Inl e, w1) \<Rightarrow> (Inl e, w1)
           | (Inr (Some existing), w1) \<Rightarrow>
               (Inr (FolderId (file_id existing)), setFolder current (file_id existing) w1)
           | (Inr None, w1) \<Rightarrow>
               (case remote current (CreateFolder part parentId)
                       (createFolder g part parentId) w1 of
                  (Inl e, w2) \<Rightarrow> (Inl e, w2)
                | (Inr folder, w2) \<Rightarrow>
                    (Inr (FolderId (file_id folder)),
                     setFolder current (file_id folder) w2))))"

text \<open>\<^verbatim>\<open>currentPath = currentPath ? `${currentPath}/${part}` : part\<close>, line 190.\<close>

definition nextPath :: "string \<Rightarrow> string \<Rightarrow> string" where
  "nextPath currentPath part =
     (if currentPath \<noteq> [] then currentPath @ ''/'' @ part else part)"

text \<open>The loop of \<^verbatim>\<open>ensureFolderExists\<close>, lines 189-209, over the remaining parts.\<close>

fun ensureFolderLoop ::
  "'r GDriveClient \<Rightarrow> string list \<Rightarrow> string \<Rightarrow> parentRef \<Rightarrow> 'r world
     \<Rightarrow> (error + parentRef) \<times> 'r world" where
  "ensureFolderLoop g [] currentPath parentId w = (Inr parentId, w)"
| "ensureFolderLoop g (part # parts) currentPath parentId w =
     (case ensureFolderStep g part (nextPath currentPath part) parentId w of
        (Inl e, w1) \<Rightarrow> (Inl e, w1)
      | (Inr newParent, w1) \<Rightarrow>
          ensureFolderLoop g parts (nextPath currentPath part) newParent w1)"

text \<open>\<^verbatim>\<open>ensureFolderExists\<close>, lines 184-212.\<close>

definition ensureFolderExists ::
  "Config \<Rightarrow> 'r GDriveClient \<Rightarrow> string \<Rightarrow> 'r world \<Rightarrow> (error + parentRef) \<times> 'r world" where
  "ensureFolderExists config g relativePath w =
     ensureFolderLoop g (split_sep relativePath) [] (FolderId (gdriveFolderId config)) w"

text \<open>\<^verbatim>\<open>handleLocalDelete\<close>, lines 214-227: what \<^verbatim>\<open>deleteFile\<close> throws is caught.\<close>

definition handleLocalDelete :: "'r GDriveClient \<Rightarrow> string \<Rightarrow> 'r world \<Rightarrow> 'r world" where
  "handleLocalDelete g relativePath w =
     (case map_of (files (state w)) relativePath of
        None \<Rightarrow> w
      | Some existing \<Rightarrow>
          (case remote relativePath (DeleteFile (gdriveId existing))
                  (deleteFile g (gdriveId existing)) w of
             (res, w1) \<Rightarrow> deleteRecord relativePath w1))"

text \<open>One turn of the loop of \<^verbatim>\<open>push\<close>, lines 33-80.\<close>

definition pushEntry ::
  "Config \<Rightarrow> 'r GDriveClient \<Rightarrow> string \<Rightarrow> 'r world \<Rightarrow> (error + unit) \<times> 'r world" where
  "pushEntry config g absolutePath w =
     (let relativePath = getRelativePath config (disk w) absolutePath in
      if isExcluded relativePath then (Inr (), w)
      else if \<not> existsSync (disk w) absolutePath
      then (Inr (), handleLocalDelete g relativePath w)
      else
        (case statSync (disk w) absolutePath of
           Inl e \<Rightarrow> (Inl e, w)
         | Inr stats \<Rightarrow>
             if isDirectory stats then (Inr (), w)
             else
               (case readFileSync (disk w) absolutePath of
                  Inl e \<Rightarrow> (Inl e, w)
                | Inr content \<Rightarrow>
                    (case map_of (files (state w)) relativePath of
                       Some existing \<Rightarrow>
                         (case remote relativePath (UpdateFile (gdriveId existing) content)
                                 (updateFile g (gdriveId existing) content) w of
                            (Inl e, w1) \<Rightarrow> (Inl e, w1)
                          | (Inr updated, w1) \<Rightarrow>
                              (Inr (),
                               setFile relativePath
                                 \<lparr>gdriveId = gdriveId existing, localMtime = mtimeMs stats,
                                  gdriveMtime = modifiedTime updated\<rparr> w1))
                     | None \<Rightarrow>
                         (case (if path_dirname relativePath = ''.''
                                then (Inr (FolderId (gdriveFolderId config)), w)
                                else ensureFolderExists config g
                                       (path_dirname relativePath) w) of
                            (Inl e, w1) \<Rightarrow> (Inl e, w1)
                          | (Inr parentId, w1) \<Rightarrow>
                              (case remote relativePath
                                      (UploadFile (path_basename relativePath) content parentId)
                                      (uploadFile g (path_basename relativePath) content
                                         parentId) w1 of
                                 (Inl e, w2) \<Rightarrow> (Inl e, w2)
                               | (Inr created, w2) \<Rightarrow>
                                   (Inr (),
                                    setFile relativePath
                                      \<lparr>gdriveId = file_id created,
                                       localMtime = mtimeMs stats,
                                       gdriveMtime = modifiedTime created\<rparr> w2)))))))"

fun pushLoop ::
  "Config \<Rightarrow> 'r GDriveClient \<Rightarrow> string list \<Rightarrow> 'r world \<Rightarrow> (error + unit) \<times> 'r world" where
  "pushLoop config g [] w = (Inr (), w)"
| "pushLoop config g (absolutePath # rest) w =
     (case pushEntry config g absolutePath w of
        (Inl e, w1) \<Rightarrow> (Inl e, w1)
      | (Inr u, w1) \<Rightarrow> pushLoop config g rest w1)"

text \<open>\<^verbatim>\<open>push\<close>, lines 32-83: the state is saved once, after the loop.\<close>

definition push ::
  "Config \<Rightarrow> 'r GDriveClient \<Rightarrow> string list \<Rightarrow> 'r world \<Rightarrow> (error + unit) \<times> 'r world" where
  "push config g absolutePaths w =
     (case pushLoop config g absolutePaths w of
        (Inl e, w1) \<Rightarrow> (Inl e, w1)
      | (Inr u, w1) \<Rightarrow> (Inr (), saveState w1))"

definition startsWith :: "string \<Rightarrow> string \<Rightarrow> bool" where
  "startsWith s p = (take (length p) s = p)"

text \<open>The first loop of \<^verbatim>\<open>pull\<close>, lines 92-96.\<close>

definition updateFolder :: "string \<times> GDriveFile \<Rightarrow> 'r world \<Rightarrow> 'r world" where
  "updateFolder entry w =
     (if mimeType (snd entry) = ''application/vnd.google-apps.folder''
      then setFolder (fst entry) (file_id (snd entry)) w else w)"

text \<open>One turn of the second loop of \<^verbatim>\<open>pull\<close>, lines 98-136, with the batch
  \<^verbatim>\<open>filesToPush\<close> collected so far.\<close>

definition pullEntry ::
  "Config \<Rightarrow> 'r GDriveClient \<Rightarrow> string \<times> GDriveFile \<Rightarrow> string list \<Rightarrow> 'r world
     \<Rightarrow> (error + string list) \<times> 'r world" where
  "pullEntry config g entry filesToPush w =
     (let relativePath = fst entry; remoteFile = snd entry in
      if isExcluded relativePath then (Inr filesToPush, w)
      else if startsWith (mimeType remoteFile) ''application/vnd.google-apps.''
      then (Inr filesToPush, w)
      else
        (let lp = path_join (localPath config) relativePath;
             remoteMtime = modifiedTime remoteFile
         in case shouldDownloadFile (state w) (disk w) relativePath lp remoteMtime of
              Inl e \<Rightarrow> (Inl e, w)
            | Inr Download \<Rightarrow>
                (case remote relativePath (DownloadFile (file_id remoteFile))
                        (downloadFile g (file_id remoteFile)) w of
                   (Inl e, w1) \<Rightarrow> (Inl e, w1)
                 | (Inr content, w1) \<Rightarrow>
                     (case mkdirSync (disk w1) (path_dirname lp) of
                        Inl e \<Rightarrow> (Inl e, w1)
                      | Inr d1 \<Rightarrow>
                          (case writeFileSync d1 lp content of
                             Inl e \<Rightarrow> (Inl e, w1\<lparr>disk := d1\<rparr>)
                           | Inr d2 \<Rightarrow>
                               (case statSync d2 lp of
                                  Inl e \<Rightarrow> (Inl e, w1\<lparr>disk := d2\<rparr>)
                                | Inr stats \<Rightarrow>
                                    (Inr filesToPush,
                                     setFile relativePath
                                       \<lparr>gdriveId = file_id remoteFile,
                                        localMtime = mtimeMs stats,
                                        gdriveMtime = remoteMtime\<rparr>
                                       (w1\<lparr>disk := d2\<rparr>))))))
            | Inr LocalNewer \<Rightarrow>
                (case statSync (disk w) lp of
                   Inl e \<Rightarrow> (Inl e, w)
                 | Inr stats \<Rightarrow>
                     (Inr (filesToPush @ [lp]),
                      setFile relativePath
                        \<lparr>gdriveId = file_id remoteFile, localMtime = mtimeMs stats,
                         gdriveMtime = remoteMtime\<rparr> w))
            | Inr Skip \<Rightarrow> (Inr filesToPush, w)))"

fun pullLoop ::
  "Config \<Rightarrow> 'r GDriveClient \<Rightarrow> (string \<times> GDriveFile) list \<Rightarrow> string list \<Rightarrow> 'r world
     \<Rightarrow> (error + string list) \<times> 'r world" where
  "pullLoop config g [] filesToPush w = (Inr filesToPush, w)"
| "pullLoop config g (entry # rest) filesToPush w =
     (case pullEntry config g entry filesToPush w of
        (Inl e, w1) \<Rightarrow> (Inl e, w1)
      | (Inr batch, w1) \<Rightarrow> pullLoop config g rest batch w1)"

text \<open>\<^verbatim>\<open>Object.keys(o)\<close>: the keys that are array indices come first, in ascending
  numeric order, then the other keys in insertion order.\<close>

definition decimalValue :: "string \<Rightarrow> int" where
  "decimalValue k = foldl (\<lambda>acc c. 10 * acc + (of_char c - 48)) 0 k"

definition isArrayIndex :: "string \<Rightarrow> bool" where
  "isArrayIndex k =
     (k \<noteq> [] \<and> list_all (\<lambda>c. c \<in> set ''0123456789'') k
      \<and> (k = ''0'' \<or> hd k \<noteq> CHR ''0'') \<and> decimalValue k < 2 ^ 32 - 1)"

definition Object_keys :: "(string \<times> 'v) list \<Rightarrow> string list" where
  "Object_keys obj =
     sort_key decimalValue (filter isArrayIndex (map fst obj))
       @ filter (\<lambda>k. \<not> isArrayIndex k) (map fst obj)"

text \<open>One turn of the third loop of \<^verbatim>\<open>pull\<close>, lines 139-154; \<^verbatim>\<open>remoteFiles.has(k)\<close>
  is \<open>map_of remoteFiles k \<noteq> None\<close>.\<close>

definition pullMissing ::
  "Config \<Rightarrow> (string \<times> GDriveFile) list \<Rightarrow> string \<Rightarrow> string list \<times> 'r world
     \<Rightarrow> string list \<times> 'r world" where
  "pullMissing config remoteFiles relativePath acc =
     (case acc of
        (filesToPush, w) \<Rightarrow>
          if map_of remoteFiles relativePath = None then
            (if existsSync (disk w) (path_join (localPath config) relativePath)
             then (filesToPush @ [path_join (localPath config) relativePath],
                   deleteRecord relativePath w)
             else (filesToPush, deleteRecord relativePath w))
          else (filesToPush, w))"

text \<open>\<^verbatim>\<open>pull\<close>, lines 85-159.\<close>

definition pull ::
  "Config \<Rightarrow> 'r GDriveClient \<Rightarrow> 'r world \<Rightarrow> (error + string list) \<times> 'r world" where
  "pull config g w =
     (case remote [] (ListFilesRecursive (gdriveFolderId config))
             (listFilesRecursive g (gdriveFolderId config)) w of
        (Inl e, w0) \<Rightarrow> (Inl e, w0)
      | (Inr remoteFiles, w0) \<Rightarrow>
          (case pullLoop config g remoteFiles [] (fold updateFolder remoteFiles w0) of
             (Inl e, w2) \<Rightarrow> (Inl e, w2)
           | (Inr batch, w2) \<Rightarrow>
               (case fold (pullMissing config remoteFiles)
                       (Object_keys (files (state w2))) (batch, w2) of
                  (filesToPush, w3) \<Rightarrow> (Inr filesToPush, saveState w3))))"

section \<open>Loading the state\<close>

text \<open>What \<^verbatim>\<open>JSON.parse\<close> returns. \<^verbatim>\<open>loadState\<close>, lines 161-168, returns the parsed
  value as it is; \<^verbatim>\<open>JSON.parse\<close> itself is a parameter.\<close>

datatype json =
    JNull
  | JBool bool
  | JNumber real
  | JString string
  | JArray "json list"
  | JObject "(string \<times> json) list"

definition emptyDocument :: json where
  "emptyDocument = JObject [(''files'', JObject []), (''folders'', JObject [])]"

definition loadState ::
  "(string \<Rightarrow> error + json) \<Rightarrow> filesystem \<Rightarrow> string \<Rightarrow> error + json" where
  "loadState JSON_parse fs statePath =
     (case (case readFileSync fs statePath of
              Inl e \<Rightarrow> Inl e
            | Inr content \<Rightarrow> JSON_parse content) of
        Inl e \<Rightarrow> Inr emptyDocument
      | Inr v \<Rightarrow> Inr v)"

text \<open>A parsed value that has the shape of a \<^verbatim>\<open>SyncState\<close>.\<close>

definition isFileState :: "json \<Rightarrow> bool" where
  "isFileState v =
     (case v of
        JObject kv \<Rightarrow>
          (case (map_of kv ''gdriveId'', map_of kv ''localMtime'', map_of kv ''gdriveMtime'') of
             (Some (JString i), Some (JNumber l), Some (JNumber r)) \<Rightarrow> True
           | _ \<Rightarrow> False)
      | _ \<Rightarrow> False)"

definition isJString :: "json \<Rightarrow> bool" where
  "isJString v = (case v of JString s \<Rightarrow> True | _ \<Rightarrow> False)"

definition isSyncState :: "json \<Rightarrow> bool" where
  "isSyncState v =
     (case v of
        JObject kv \<Rightarrow>
          (case (map_of kv ''files'', map_of kv ''folders'') of
             (Some (JObject fl), Some (JObject fo)) \<Rightarrow>
               list_all (\<lambda>e. isFileState (snd e)) fl \<and> list_all (\<lambda>e. isJString (snd e)) fo
           | _ \<Rightarrow> False)
      | _ \<Rightarrow> False)"

section \<open>Predicates of the properties\<close>

text \<open>The calls that find or create a folder.\<close>

definition isFolderCall :: "string \<times> call \<times> outcome \<Rightarrow> bool" where
  "isFolderCall ev =
     (case fst (snd ev) of FindFolder n p \<Rightarrow> True | CreateFolder n p \<Rightarrow> True | _ \<Rightarrow> False)"








text \<open>A call that throws out of \<^verbatim>\<open>push\<close>: any call but the \<^verbatim>\<open>deleteFile\<close> of
  \<^verbatim>\<open>handleLocalDelete\<close>, whose error is caught.\<close>

definition threwUncaught :: "string \<times> call \<times> outcome \<Rightarrow> bool" where
  "threwUncaught ev =
     (snd (snd ev) = Threw \<and> (case fst (snd ev) of DeleteFile i \<Rightarrow> False | _ \<Rightarrow> True))"

text \<open>The calls a run added to the trace.\<close>

definition newCalls :: "'r world \<Rightarrow> 'r world \<Rightarrow> (string \<times> call \<times> outcome) list" where
  "newCalls w w' = drop (length (calls w)) (calls w')"

text \<open>A transfer call is made for a path that is not excluded, and an upload never
  carries an excluded name.\<close>

definition transferAllowed :: "string \<times> call \<times> outcome \<Rightarrow> bool" where
  "transferAllowed ev =
     (case fst (snd ev) of
        UploadFile n content parent \<Rightarrow>
          \<not> isExcluded (fst ev) \<and> n \<notin> set getExcludedFiles
      | DownloadFile i \<Rightarrow> \<not> isExcluded (fst ev)
      | UpdateFile i content \<Rightarrow> \<not> isExcluded (fst ev)
      | DeleteFile i \<Rightarrow> \<not> isExcluded (fst ev)
      | _ \<Rightarrow> True)"

text \<open>No key of a \<open>files\<close> map has an excluded basename.\<close>

definition keysAllowed :: "(string \<times> FileState) list \<Rightarrow> bool" where
  "keysAllowed fl = list_all (\<lambda>e. \<not> isExcluded (fst e)) fl"

definition excludedFree :: "'r world \<Rightarrow> bool" where
  "excludedFree w =
     (keysAllowed (files (state w))
      \<and> (case persisted w of None \<Rightarrow> True | Some st \<Rightarrow> keysAllowed (files st))
      \<and> list_all transferAllowed (calls w))"

text \<open>What a run of the folder resolver leaves alone, and the shape of its calls \<open>cs\<close>:
  only folder calls; all of them returned when the run returned, and the last one threw
  when the run threw.\<close>

definition folderRun ::
  "'r world \<Rightarrow> (error + parentRef) \<Rightarrow> 'r world \<Rightarrow> (string \<times> call \<times> outcome) list
     \<Rightarrow> bool" where
  "folderRun w res w' cs =
     (files (state w') = files (state w) \<and> disk w' = disk w \<and> persisted w' = persisted w
      \<and> calls w' = calls w @ cs \<and> list_all isFolderCall cs
      \<and> (if isl res then cs \<noteq> [] \<and> snd (snd (last cs)) = Threw
          else list_all (\<lambda>ev. snd (snd ev) = Returned) cs))"

text \<open>The calls that delete a remote object.\<close>

definition isDeleteCall :: "string \<times> call \<times> outcome \<Rightarrow> bool" where
  "isDeleteCall ev = (case fst (snd ev) of DeleteFile i \<Rightarrow> True | _ \<Rightarrow> False)"

text \<open>What one turn of the loop of \<^verbatim>\<open>push\<close> on the relative path \<open>rel\<close> leaves alone,
  and the shape of its calls \<open>cs\<close>.\<close>

definition pushRun ::
  "string \<Rightarrow> 'r world \<Rightarrow> (error + unit) \<Rightarrow> 'r world \<Rightarrow> (string \<times> call \<times> outcome) list \<Rightarrow> bool" where
  "pushRun rel w res w' cs =
     (disk w' = disk w \<and> persisted w' = persisted w \<and> calls w' = calls w @ cs
      \<and> (isl res \<longleftrightarrow> list_ex threwUncaught cs)
      \<and> (isl res \<longrightarrow> files (state w') = files (state w) \<and> cs \<noteq> []
            \<and> threwUncaught (last cs) \<and> \<not> list_ex isDeleteCall cs)
      \<and> (\<forall>k. k \<noteq> rel \<longrightarrow> map_of (files (state w')) k = map_of (files (state w)) k)
      \<and> (keysAllowed (files (state w)) \<longrightarrow> keysAllowed (files (state w')))
      \<and> list_all (\<lambda>ev. fst ev = rel \<or> isFolderCall ev) cs
      \<and> list_all transferAllowed cs)"

text \<open>A disk keeps every node of another, and the working directory.\<close>

definition keepsNodes :: "filesystem \<Rightarrow> filesystem \<Rightarrow> bool" where
  "keepsNodes fs fs' = (cwd fs' = cwd fs \<and> (\<forall>s. nodes fs s \<noteq> None \<longrightarrow> nodes fs' s \<noteq> None))"

text \<open>A call made for the relative path \<open>rel\<close>: every call but the listing.\<close>

definition callFor :: "string \<Rightarrow> string \<times> call \<times> outcome \<Rightarrow> bool" where
  "callFor rel ev =
     (fst ev = rel \<and> (case fst (snd ev) of ListFilesRecursive i \<Rightarrow> False | _ \<Rightarrow> True))"

text \<open>What turns of the second loop of \<^verbatim>\<open>pull\<close> on the relative paths \<open>K\<close> leave
  alone, and the shape of their calls \<open>cs\<close>.\<close>

definition isDownloadCall :: "string \<times> call \<times> outcome \<Rightarrow> bool" where
  "isDownloadCall ev = (case fst (snd ev) of DownloadFile i \<Rightarrow> True | _ \<Rightarrow> False)"

definition pullRun ::
  "string set \<Rightarrow> string list \<Rightarrow> 'r world \<Rightarrow> (error + string list) \<Rightarrow> 'r world
     \<Rightarrow> (string \<times> call \<times> outcome) list \<Rightarrow> bool" where
  "pullRun K batch w res w' cs =
     (persisted w' = persisted w \<and> folders (state w') = folders (state w)
      \<and> calls w' = calls w @ cs
      \<and> list_all (\<lambda>ev. fst ev \<in> K \<and> isDownloadCall ev) cs
      \<and> list_all transferAllowed cs
      \<and> (\<forall>k. k \<notin> K \<longrightarrow> map_of (files (state w')) k = map_of (files (state w)) k)
      \<and> (\<forall>k. map_of (files (state w)) k \<noteq> None \<longrightarrow> map_of (files (state w')) k \<noteq> None)
      \<and> (keysAllowed (files (state w)) \<longrightarrow> keysAllowed (files (state w')))
      \<and> keepsNodes (disk w) (disk w')
      \<and> (case res of
            Inl e \<Rightarrow> True
          | Inr b \<Rightarrow> set batch \<subseteq> set b
                     \<and> list_all (\<lambda>p. p \<in> set batch \<or> existsSync (disk w') p) b))"

text \<open>
  The worlds an engine can be in: it starts with the empty state (no state file), runs
  \<^verbatim>\<open>push\<close> and \<^verbatim>\<open>pull\<close> on any batch, whether they return or throw; between two
  runs anything may happen to the disk and to the remote store; and a new engine may
  start from the document last saved.
\<close>

inductive reachable :: "Config \<Rightarrow> 'r GDriveClient \<Rightarrow> 'r world \<Rightarrow> bool"
  for config :: Config and g :: "'r GDriveClient" where
  started: "state w = \<lparr>files = [], folders = []\<rparr> \<Longrightarrow> persisted w = None \<Longrightarrow> calls w = []
     \<Longrightarrow> reachable config g w"
| environment: "reachable config g w \<Longrightarrow> reachable config g (w\<lparr>disk := d, gdrive := r\<rparr>)"
| pushed: "reachable config g w \<Longrightarrow> reachable config g (snd (push config g batch w))"
| pulled: "reachable config g w \<Longrightarrow> reachable config g (snd (pull config g w))"
| restarted: "reachable config g w \<Longrightarrow> persisted w = Some st
     \<Longrightarrow> reachable config g (w\<lparr>state := st\<rparr>)"

section \<open>A reference remote store\<close>

text \<open>
  One behaviour of the Drive service behind \<^verbatim>\<open>GDriveClient\<close>, for sample runs and for
  counting folders: a list of objects, each under a parent. \<^verbatim>\<open>findFolder\<close> returns the
  first folder of that name under the parent, \<^verbatim>\<open>createFolder\<close> and \<^verbatim>\<open>uploadFile\<close>
  add an object with a new id, \<^verbatim>\<open>deleteFile\<close> accepts a missing id (the 404 that
  \<^verbatim>\<open>gdrive.ts\<close> lets pass), and \<^verbatim>\<open>listFilesRecursive\<close> is lines 53-72 of
  \<^verbatim>\<open>gdrive.ts\<close> over the children of a folder, with the depth bounded by \<open>n\<close>.
\<close>

record dobject =
  oid :: string
  oname :: string
  oparent :: string
  omime :: string
  omtime :: real
  odata :: string

record drive =
  objects :: "dobject list"
  fresh :: nat
  clock :: real

definition FOLDER_MIME :: string where
  "FOLDER_MIME = ''application/vnd.google-apps.folder''"

definition toFile :: "dobject \<Rightarrow> GDriveFile" where
  "toFile ob = \<lparr>file_id = oid ob, name = oname ob, mimeType = omime ob, modifiedTime = omtime ob\<rparr>"

definition newId :: "nat \<Rightarrow> string" where
  "newId n = CHR ''n'' # replicate n (CHR ''i'')"

definition isFolderNamed :: "string \<Rightarrow> string \<Rightarrow> dobject \<Rightarrow> bool" where
  "isFolderNamed nm parent ob = (oparent ob = parent \<and> oname ob = nm \<and> omime ob = FOLDER_MIME)"


text \<open>Under a parent that is no ID the reference store finds nothing and refuses to
  create anything.\<close>

definition drive_findFolder ::
  "string \<Rightarrow> parentRef \<Rightarrow> drive \<Rightarrow> (error + GDriveFile option) \<times> drive" where
  "drive_findFolder nm parentId d =
     (case parentId of
        FolderId parent \<Rightarrow>
          (Inr (case filter (isFolderNamed nm parent) (objects d) of
                  [] \<Rightarrow> None
                | ob # rest \<Rightarrow> Some (toFile ob)), d)
      | InheritedProperty p \<Rightarrow> (Inr None, d))"

definition addObject :: "string \<Rightarrow> string \<Rightarrow> string \<Rightarrow> string \<Rightarrow> drive \<Rightarrow> (error + GDriveFile) \<times> drive" where
  "addObject nm parent mime content d =
     (let ob = \<lparr>oid = newId (fresh d), oname = nm, oparent = parent, omime = mime,
                omtime = clock d, odata = content\<rparr>
      in (Inr (toFile ob), d\<lparr>objects := objects d @ [ob], fresh := Suc (fresh d)\<rparr>))"

definition drive_createFolder ::
  "string \<Rightarrow> parentRef \<Rightarrow> drive \<Rightarrow> (error + GDriveFile) \<times> drive" where
  "drive_createFolder nm parentId d =
     (case parentId of
        FolderId parent \<Rightarrow> addObject nm parent FOLDER_MIME [] d
      | InheritedProperty p \<Rightarrow> (Inl (GDriveError ''400''), d))"

definition drive_uploadFile ::
  "string \<Rightarrow> string \<Rightarrow> parentRef \<Rightarrow> drive \<Rightarrow> (error + GDriveFile) \<times> drive" where
  "drive_uploadFile nm content parentId d =
     (case parentId of
        FolderId parent \<Rightarrow> addObject nm parent ''application/octet-stream'' content d
      | InheritedProperty p \<Rightarrow> (Inl (GDriveError ''400''), d))"

definition drive_updateFile :: "string \<Rightarrow> string \<Rightarrow> drive \<Rightarrow> (error + GDriveFile) \<times> drive" where
  "drive_updateFile i content d =
     (case filter (\<lambda>ob. oid ob = i) (objects d) of
        [] \<Rightarrow> (Inl (GDriveError ''404''), d)
      | ob # rest \<Rightarrow>
          (Inr (toFile (ob\<lparr>odata := content, omtime := clock d\<rparr>)),
           d\<lparr>objects := map (\<lambda>x. if oid x = i then x\<lparr>odata := content, omtime := clock d\<rparr>
                                  else x) (objects d)\<rparr>))"

definition drive_downloadFile :: "string \<Rightarrow> drive \<Rightarrow> (error + string) \<times> drive" where
  "drive_downloadFile i d =
     (case filter (\<lambda>ob. oid ob = i) (objects d) of
        [] \<Rightarrow> (Inl (GDriveError ''404''), d)
      | ob # rest \<Rightarrow> (Inr (odata ob), d))"

definition drive_deleteFile :: "string \<Rightarrow> drive \<Rightarrow> (error + unit) \<times> drive" where
  "drive_deleteFile i d = (Inr (), d\<lparr>objects := filter (\<lambda>ob. oid ob \<noteq> i) (objects d)\<rparr>)"

fun drive_listRec :: "nat \<Rightarrow> dobject list \<Rightarrow> string \<Rightarrow> string \<Rightarrow> (string \<times> GDriveFile) list" where
  "drive_listRec 0 obs folderId basePath = []"
| "drive_listRec (Suc n) obs folderId basePath =
     fold (\<lambda>ob result.
             if omime ob = FOLDER_MIME
             then fold (\<lambda>sub r. AList.update (fst sub) (snd sub) r)
                    (drive_listRec n obs (oid ob) (nextPath basePath (oname ob))) result
             else AList.update (nextPath basePath (oname ob)) (toFile ob) result)
          (filter (\<lambda>ob. oparent ob = folderId) obs) []"

definition drive_listFilesRecursive ::
  "string \<Rightarrow> drive \<Rightarrow> (error + (string \<times> GDriveFile) list) \<times> drive" where
  "drive_listFilesRecursive folderId d =
     (Inr (drive_listRec (Suc (length (objects d))) (objects d) folderId []), d)"

definition driveClient :: "drive GDriveClient" where
  "driveClient =
     \<lparr>listFilesRecursive = drive_listFilesRecursive, downloadFile = drive_downloadFile,
      createFolder = drive_createFolder, findFolder = drive_findFolder,
      uploadFile = drive_uploadFile, updateFile = drive_updateFile,
      deleteFile = drive_deleteFile\<rparr>"

text \<open>The same store with a \<^verbatim>\<open>deleteFile\<close> that always throws (a 500), and with an
  \<^verbatim>\<open>uploadFile\<close> that always throws.\<close>

definition failingDeleteClient :: "drive GDriveClient" where
  "failingDeleteClient = driveClient\<lparr>deleteFile := (\<lambda>i d. (Inl (GDriveError ''500''), d))\<rparr>"

definition failingUploadClient :: "drive GDriveClient" where
  "failingUploadClient =
     driveClient\<lparr>uploadFile := (\<lambda>nm content parent d. (Inl (GDriveError ''500''), d))\<rparr>"

text \<open>The same store with a \<^verbatim>\<open>findFolder\<close> that always throws, and with a
  \<^verbatim>\<open>createFolder\<close> that always throws.\<close>

definition failingFindClient :: "drive GDriveClient" where
  "failingFindClient = driveClient\<lparr>findFolder := (\<lambda>nm parent d. (Inl (GDriveError ''500''), d))\<rparr>"

definition failingCreateClient :: "drive GDriveClient" where
  "failingCreateClient =
     driveClient\<lparr>createFolder := (\<lambda>nm parent d. (Inl (GDriveError ''500''), d))\<rparr>"

section \<open>Sample inputs\<close>

definition sampleFs :: filesystem where
  "sampleFs =
     \<lparr>nodes = [[''r''] \<mapsto> \<lparr>isDirectory = True, mtimeMs = 1, bytes = []\<rparr>,
               [''r'', ''a''] \<mapsto> \<lparr>isDirectory = False, mtimeMs = 7, bytes = ''local''\<rparr>],
      cwd = ''/'', stamps = (\<lambda>n. 100 + real n), nwrites = 0\<rparr>"

definition sampleRecord :: FileState where
  "sampleRecord = \<lparr>gdriveId = ''id1'', localMtime = 2, gdriveMtime = 3\<rparr>"

definition sampleState :: SyncState where
  "sampleState = \<lparr>files = [(''a'', sampleRecord)], folders = []\<rparr>"

definition emptyState :: SyncState where
  "emptyState = \<lparr>files = [], folders = []\<rparr>"

definition sampleConfig :: Config where
  "sampleConfig = \<lparr>localPath = ''/r'', gdriveFolderId = ''root''\<rparr>"

definition emptyDrive :: drive where
  "emptyDrive = \<lparr>objects = [], fresh = 0, clock = 50\<rparr>"

definition sampleWorld :: "drive world" where
  "sampleWorld =
     \<lparr>state = emptyState, disk = sampleFs, gdrive = emptyDrive, persisted = None, calls = []\<rparr>"

definition sampleFs2 :: filesystem where
  "sampleFs2 =
     \<lparr>nodes = [[''r''] \<mapsto> \<lparr>isDirectory = True, mtimeMs = 1, bytes = []\<rparr>,
               [''r'', ''a''] \<mapsto> \<lparr>isDirectory = False, mtimeMs = 7, bytes = ''local''\<rparr>,
               [''r'', ''b''] \<mapsto> \<lparr>isDirectory = False, mtimeMs = 9, bytes = ''new''\<rparr>],
      cwd = ''/'', stamps = (\<lambda>n. 100 + real n), nwrites = 0\<rparr>"

definition sampleDrive :: drive where
  "sampleDrive =
     \<lparr>objects = [\<lparr>oid = ''id1'', oname = ''a'', oparent = ''root'',
                   omime = ''text/plain'', omtime = 3, odata = ''old''\<rparr>],
      fresh = 0, clock = 50\<rparr>"

definition trackedWorld :: "drive world" where
  "trackedWorld =
     \<lparr>state = sampleState, disk = sampleFs2, gdrive = sampleDrive, persisted = None,
      calls = []\<rparr>"

definition emptyDirFs :: filesystem where
  "emptyDirFs =
     \<lparr>nodes = [[''r''] \<mapsto> \<lparr>isDirectory = True, mtimeMs = 1, bytes = []\<rparr>],
      cwd = ''/'', stamps = (\<lambda>n. 100 + real n), nwrites = 0\<rparr>"

definition goneWorld :: "drive world" where
  "goneWorld =
     \<lparr>state = sampleState, disk = emptyDirFs, gdrive = sampleDrive, persisted = None,
      calls = []\<rparr>"

definition folderDrive :: drive where
  "folderDrive =
     \<lparr>objects = [\<lparr>oid = ''fd1'', oname = ''docs'', oparent = ''root'',
                   omime = FOLDER_MIME, omtime = 3, odata = []\<rparr>],
      fresh = 0, clock = 50\<rparr>"

definition folderWorld :: "drive world" where
  "folderWorld =
     \<lparr>state = emptyState, disk = sampleFs, gdrive = folderDrive, persisted = None, calls = []\<rparr>"

definition cachedWorld :: "drive world" where
  "cachedWorld =
     \<lparr>state = \<lparr>files = [], folders = [(''docs'', ''fd1'')]\<rparr>, disk = sampleFs,
      gdrive = folderDrive, persisted = None, calls = []\<rparr>"

text \<open>An engine that lost its state, with a folder \<^verbatim>\<open>constructor\<close> on the remote
  store; and an engine whose \<open>folders\<close> holds the empty string for \<^verbatim>\<open>docs\<close>.\<close>

definition constructorDrive :: drive where
  "constructorDrive =
     \<lparr>objects = [\<lparr>oid = ''fc1'', oname = ''constructor'', oparent = ''root'',
                   omime = FOLDER_MIME, omtime = 3, odata = []\<rparr>],
      fresh = 0, clock = 50\<rparr>"

definition constructorWorld :: "drive world" where
  "constructorWorld =
     \<lparr>state = emptyState, disk = sampleFs, gdrive = constructorDrive, persisted = None,
      calls = []\<rparr>"

definition emptyIdWorld :: "drive world" where
  "emptyIdWorld =
     \<lparr>state = \<lparr>files = [], folders = [(''docs'', [])]\<rparr>, disk = sampleFs,
      gdrive = folderDrive, persisted = None, calls = []\<rparr>"

definition staleWorld :: "drive world" where
  "staleWorld =
     \<lparr>state = sampleState, disk = sampleFs, gdrive = emptyDrive, persisted = None, calls = []\<rparr>"

definition staleGoneWorld :: "drive world" where
  "staleGoneWorld =
     \<lparr>state = sampleState, disk = emptyDirFs, gdrive = emptyDrive, persisted = None,
      calls = []\<rparr>"

definition conflictDrive :: drive where
  "conflictDrive =
     \<lparr>objects = [\<lparr>oid = ''id1'', oname = ''a'', oparent = ''root'',
                   omime = ''text/plain'', omtime = 5, odata = ''remote''\<rparr>],
      fresh = 0, clock = 50\<rparr>"

definition conflictWorld :: "drive world" where
  "conflictWorld =
     \<lparr>state = sampleState, disk = sampleFs, gdrive = conflictDrive, persisted = None,
      calls = []\<rparr>"

definition remoteA :: GDriveFile where
  "remoteA = \<lparr>file_id = ''id1'', name = ''a'', mimeType = ''text/plain'', modifiedTime = 5\<rparr>"

definition dsFs :: filesystem where
  "dsFs =
     \<lparr>nodes = [[''r''] \<mapsto> \<lparr>isDirectory = True, mtimeMs = 1, bytes = []\<rparr>,
               [''r'', ''.DS_Store''] \<mapsto> \<lparr>isDirectory = True, mtimeMs = 1, bytes = []\<rparr>,
               [''r'', ''.DS_Store'', ''x''] \<mapsto>
                 \<lparr>isDirectory = False, mtimeMs = 7, bytes = ''local''\<rparr>],
      cwd = ''/'', stamps = (\<lambda>n. 100 + real n), nwrites = 0\<rparr>"

definition dsWorld :: "drive world" where
  "dsWorld =
     \<lparr>state = \<lparr>files = [], folders = []\<rparr>, disk = dsFs, gdrive = emptyDrive,
      persisted = None, calls = []\<rparr>"

text \<open>\<^verbatim>\<open>JSON.parse\<close> on the texts the samples use: \<^verbatim>\<open>{}\<close> is the empty object, and
  \<^verbatim>\<open>local\<close> is not JSON.\<close>

definition sampleParse :: "string \<Rightarrow> error + json" where
  "sampleParse content = (if content = ''{}'' then Inr (JObject []) else Inl SyntaxError)"

definition stateFileFs :: filesystem where
  "stateFileFs =
     \<lparr>nodes = [[''r''] \<mapsto> \<lparr>isDirectory = True, mtimeMs = 1, bytes = []\<rparr>,
               [''r'', STATE_FILENAME] \<mapsto>
                 \<lparr>isDirectory = False, mtimeMs = 7, bytes = ''{}''\<rparr>],
      cwd = ''/'', stamps = (\<lambda>n. 100 + real n), nwrites = 0\<rparr>"

section \<open>Basic facts about the engine's steps\<close>

lemma remote_eq:
  "remote who c m w =
     (fst (m (gdrive w)),
      w\<lparr>gdrive := snd (m (gdrive w)),
        calls := calls w @ [(who, c, if isl (fst (m (gdrive w))) then Threw else Returned)]\<rparr>)"
  by (simp add: remote_def split: prod.splits)

lemma setFile_simps [simp]:
  "files (state (setFile k v w)) = AList.update k v (files (state w))"
  "folders (state (setFile k v w)) = folders (state w)"
  "disk (setFile k v w) = disk w" "gdrive (setFile k v w) = gdrive w"
  "persisted (setFile k v w) = persisted w" "calls (setFile k v w) = calls w"
  by (simp_all add: setFile_def)

lemma deleteRecord_simps [simp]:
  "files (state (deleteRecord k w)) = AList.delete k (files (state w))"
  "folders (state (deleteRecord k w)) = folders (state w)"
  "disk (deleteRecord k w) = disk w" "gdrive (deleteRecord k w) = gdrive w"
  "persisted (deleteRecord k w) = persisted w" "calls (deleteRecord k w) = calls w"
  by (simp_all add: deleteRecord_def)

lemma setFolder_simps [simp]:
  "files (state (setFolder k v w)) = files (state w)"
  "disk (setFolder k v w) = disk w" "gdrive (setFolder k v w) = gdrive w"
  "persisted (setFolder k v w) = persisted w" "calls (setFolder k v w) = calls w"
  by (simp_all add: setFolder_def)


lemma saveState_simps [simp]:
  "state (saveState w) = state w" "disk (saveState w) = disk w"
  "gdrive (saveState w) = gdrive w" "persisted (saveState w) = Some (state w)"
  "calls (saveState w) = calls w"
  by (simp_all add: saveState_def)

lemma newCalls_append [simp]:
  "calls w' = calls w @ cs \<Longrightarrow> newCalls w w' = cs"
  by (simp add: newCalls_def)

lemma statSync_existsSync:
  "existsSync fs p \<Longrightarrow> \<exists>stats. statSync fs p = Inr stats"
  by (auto simp: existsSync_def statSync_def split: option.splits)

lemma readFileSync_file:
  "statSync fs p = Inr stats \<Longrightarrow> \<not> isDirectory stats \<Longrightarrow> readFileSync fs p = Inr (bytes stats)"
  by (auto simp: readFileSync_def statSync_def split: option.splits)

subsection \<open>Folder resolution\<close>

lemma ensureFolderStep_run:
  "ensureFolderStep g part cur pid w = (res, w') \<Longrightarrow> \<exists>cs. folderRun w res w' cs"
  by (auto simp: ensureFolderStep_def remote_eq isFolderCall_def folderRun_def
           split: option.splits prod.splits sum.splits)

lemma folderRun_trans:
  "folderRun w (Inr x) w1 cs1 \<Longrightarrow> folderRun w1 res w2 cs2 \<Longrightarrow> folderRun w res w2 (cs1 @ cs2)"
  by (auto simp: folderRun_def)

lemma ensureFolderLoop_run:
  "ensureFolderLoop g parts cur pid w = (res, w') \<Longrightarrow> \<exists>cs. folderRun w res w' cs"
proof (induction parts arbitrary: cur pid w)
  case Nil
  then show ?case by (auto simp: folderRun_def)
next
  case (Cons part parts)
  obtain r1 w1 where s: "ensureFolderStep g part (nextPath cur part) pid w = (r1, w1)"
    by (cases "ensureFolderStep g part (nextPath cur part) pid w")
  from ensureFolderStep_run [OF s] obtain cs1 where f: "folderRun w r1 w1 cs1" ..
  show ?case
  proof (cases r1)
    case (Inl e)
    with Cons.prems s f show ?thesis by auto
  next
    case (Inr np)
    with Cons.prems s have "ensureFolderLoop g parts (nextPath cur part) np w1 = (res, w')"
      by simp
    from Cons.IH [OF this] obtain cs2 where "folderRun w1 res w' cs2" ..
    with f Inr show ?thesis by (blast intro: folderRun_trans)
  qed
qed

lemma ensureFolderExists_run:
  "ensureFolderExists config g dir w = (res, w') \<Longrightarrow> \<exists>cs. folderRun w res w' cs"
  unfolding ensureFolderExists_def by (rule ensureFolderLoop_run)

lemma keysAllowed_iff: "keysAllowed fl \<longleftrightarrow> (\<forall>k \<in> fst ` set fl. \<not> isExcluded k)"
  by (auto simp: keysAllowed_def list_all_iff)

lemma keysAllowed_update:
  "keysAllowed fl \<Longrightarrow> \<not> isExcluded k \<Longrightarrow> keysAllowed (AList.update k v fl)"
  by (simp add: keysAllowed_iff dom_update)

lemma keysAllowed_delete: "keysAllowed fl \<Longrightarrow> keysAllowed (AList.delete k fl)"
  using dom_delete_subset [of k fl] unfolding keysAllowed_iff by blast

lemma map_of_update_other: "k' \<noteq> k \<Longrightarrow> map_of (AList.update k v fl) k' = map_of fl k'"
  by (simp add: update_conv')



lemma folderRun_returned:
  "folderRun w (Inr x) w' cs \<Longrightarrow> \<not> list_ex threwUncaught cs"
  by (auto simp: folderRun_def threwUncaught_def list_all_iff list_ex_iff)

lemma folderRun_threw:
  "folderRun w (Inl e) w' cs \<Longrightarrow> list_ex threwUncaught cs"
proof -
  assume r: "folderRun w (Inl e) w' cs"
  then have ne: "cs \<noteq> []" and t: "snd (snd (last cs)) = Threw" and f: "list_all isFolderCall cs"
    by (auto simp: folderRun_def)
  from ne have m: "last cs \<in> set cs" by simp
  with f have "isFolderCall (last cs)" by (simp add: list_all_iff)
  with t have "threwUncaught (last cs)"
    by (auto simp: threwUncaught_def isFolderCall_def split: call.splits)
  with m show ?thesis by (auto simp: list_ex_iff)
qed

lemma folderRun_transfer:
  "folderRun w res w' cs \<Longrightarrow> list_all transferAllowed cs"
  by (auto simp: folderRun_def list_all_iff isFolderCall_def transferAllowed_def split: call.splits)

text \<open>handleLocalDelete\<close>

lemma handleLocalDelete_untracked:
  "map_of (files (state w)) rel = None \<Longrightarrow> handleLocalDelete g rel w = w"
  by (simp add: handleLocalDelete_def)

lemma handleLocalDelete_tracked:
  "map_of (files (state w)) rel = Some existing \<Longrightarrow>
     handleLocalDelete g rel w =
       deleteRecord rel
         (w\<lparr>gdrive := snd (deleteFile g (gdriveId existing) (gdrive w)),
            calls := calls w @ [(rel, DeleteFile (gdriveId existing),
                       if isl (fst (deleteFile g (gdriveId existing) (gdrive w)))
                       then Threw else Returned)]\<rparr>)"
  by (simp add: handleLocalDelete_def remote_eq)

text \<open>pushEntry: what one turn does\<close>

subsection \<open>One turn of the loop of push\<close>

lemma folderRun_last:
  "folderRun w (Inl e) w' cs \<Longrightarrow> threwUncaught (last cs)"
proof -
  assume r: "folderRun w (Inl e) w' cs"
  then have ne: "cs \<noteq> []" and t: "snd (snd (last cs)) = Threw" and f: "list_all isFolderCall cs"
    by (auto simp: folderRun_def)
  from ne have m: "last cs \<in> set cs" by simp
  with f have "isFolderCall (last cs)" by (simp add: list_all_iff)
  with t show "threwUncaught (last cs)"
    by (auto simp: threwUncaught_def isFolderCall_def split: call.splits)
qed

lemma pushEntry_run:
  assumes run: "pushEntry config g p w = (res, w')"
    and rel: "rel = getRelativePath config (disk w) p"
  shows "\<exists>cs. pushRun rel w res w' cs"
proof -
  show ?thesis
  proof (cases "isExcluded rel")
    case True
    with run show ?thesis
      by (auto simp: pushEntry_def rel [symmetric] pushRun_def)
  next
    case ne: False
    show ?thesis
    proof (cases "existsSync (disk w) p")
      case False
      show ?thesis
      proof (cases "map_of (files (state w)) rel")
        case None
        with run ne False show ?thesis
          by (auto simp: pushEntry_def rel [symmetric] pushRun_def handleLocalDelete_untracked)
      next
        case (Some existing)
        with run ne False show ?thesis
          by (auto simp: pushEntry_def rel [symmetric] pushRun_def handleLocalDelete_tracked
                threwUncaught_def transferAllowed_def keysAllowed_delete isDeleteCall_def)
      qed
    next
      case True
      then obtain stats where st: "statSync (disk w) p = Inr stats"
        using statSync_existsSync by blast
      show ?thesis
      proof (cases "isDirectory stats")
        case True
        with run ne \<open>existsSync (disk w) p\<close> st show ?thesis
          by (auto simp: pushEntry_def rel [symmetric] pushRun_def)
      next
        case False
        note rd = readFileSync_file [OF st False]
        show ?thesis
        proof (cases "map_of (files (state w)) rel")
          case (Some existing)
          with run ne \<open>existsSync (disk w) p\<close> st False rd show ?thesis
            by (auto simp: pushEntry_def rel [symmetric] pushRun_def remote_eq
                  threwUncaught_def transferAllowed_def keysAllowed_update map_of_update_other
                  isDeleteCall_def
                split: sum.splits)
        next
          case None
          obtain r1 w1 where f: "(if path_dirname rel = ''.'' then (Inr (FolderId (gdriveFolderId config)), w)
                     else ensureFolderExists config g (path_dirname rel) w) = (r1, w1)"
            by (cases "(if path_dirname rel = ''.'' then (Inr (FolderId (gdriveFolderId config)), w)
                     else ensureFolderExists config g (path_dirname rel) w)")
          have "\<exists>cs. folderRun w r1 w1 cs"
          proof (cases "path_dirname rel = ''.''")
            case True
            with f show ?thesis by (auto simp: folderRun_def)
          next
            case False
            with f show ?thesis by (auto dest: ensureFolderExists_run)
          qed
          then obtain cs1 where fr: "folderRun w r1 w1 cs1" ..
          show ?thesis
          proof (cases r1)
            case (Inl e)
            with run ne \<open>existsSync (disk w) p\<close> st False rd None f
            have "res = Inl e" "w' = w1"
              by (auto simp: pushEntry_def rel [symmetric])
            with fr Inl folderRun_threw [of w e w1 cs1] folderRun_transfer [OF fr] ne
              folderRun_last [of w e w1 cs1]
            show ?thesis
              by (auto simp: pushRun_def folderRun_def list_all_iff list_ex_iff isFolderCall_def
                    isDeleteCall_def rel [symmetric] split: call.splits
                    intro!: exI [of _ cs1])
          next
            case (Inr parentId)
            define up where "up = uploadFile g (path_basename rel) (bytes stats) parentId (gdrive w1)"
            define ev where "ev = (rel, UploadFile (path_basename rel) (bytes stats) parentId,
                                   if isl (fst up) then Threw else Returned)"
            from fr Inr have nt: "\<not> list_ex threwUncaught cs1" by (simp add: folderRun_returned)
            have ta: "list_all transferAllowed cs1" by (rule folderRun_transfer [OF fr])
            have tev: "transferAllowed ev"
              using ne by (simp add: transferAllowed_def ev_def isExcluded_def)
            from run ne \<open>existsSync (disk w) p\<close> st False rd None f Inr
            have c: "(res, w') = (case fst up of
                     Inl e \<Rightarrow> (Inl e, w1\<lparr>gdrive := snd up, calls := calls w1 @ [ev]\<rparr>)
                   | Inr created \<Rightarrow> (Inr (),
                        setFile rel \<lparr>gdriveId = file_id created, localMtime = mtimeMs stats,
                                     gdriveMtime = modifiedTime created\<rparr>
                          (w1\<lparr>gdrive := snd up, calls := calls w1 @ [ev]\<rparr>)))"
              by (auto simp: pushEntry_def rel [symmetric] remote_eq up_def ev_def
                    split: sum.splits)
            have nd: "\<not> list_ex isDeleteCall (cs1 @ [ev])"
              using fr by (auto simp: folderRun_def list_all_iff list_ex_iff isFolderCall_def
                    isDeleteCall_def ev_def split: call.splits)
            have own: "list_all (\<lambda>e. fst e = rel \<or> isFolderCall e) (cs1 @ [ev])"
              using fr by (auto simp: folderRun_def list_all_iff ev_def)
            from ta tev have ta2: "list_all transferAllowed (cs1 @ [ev])" by simp
            have th: "list_ex threwUncaught (cs1 @ [ev]) \<longleftrightarrow> isl (fst up)"
              using nt by (auto simp: threwUncaught_def ev_def)
            have la: "threwUncaught (last (cs1 @ [ev])) \<longleftrightarrow> isl (fst up)"
              by (auto simp: threwUncaught_def ev_def)
            from c fr nd own ta2 th la ne show ?thesis
              unfolding pushRun_def
              by (intro exI [of _ "cs1 @ [ev]"])
                 (auto simp: folderRun_def keysAllowed_update map_of_update_other
                    split: sum.splits)
          qed
        qed
      qed
    qed
  qed
qed


subsection \<open>The loop of push\<close>

lemma pushEntry_disk:
  "pushEntry config g p w = (res, w') \<Longrightarrow> disk w' = disk w"
  using pushEntry_run [of config g p w res w'] by (auto simp: pushRun_def)

lemma pushLoop_append:
  "pushLoop config g (pre @ post) w =
     (case pushLoop config g pre w of
        (Inl e, w1) \<Rightarrow> (Inl e, w1)
      | (Inr u, w1) \<Rightarrow> pushLoop config g post w1)"
  by (induction pre arbitrary: w) (auto split: prod.splits sum.splits)

text \<open>What the whole loop leaves alone.\<close>

lemma pushLoop_run:
  "pushLoop config g ps w = (res, w') \<Longrightarrow>
     disk w' = disk w \<and> persisted w' = persisted w
     \<and> (\<exists>cs. calls w' = calls w @ cs \<and> list_all transferAllowed cs
              \<and> (\<not> isl res \<longrightarrow> \<not> list_ex threwUncaught cs))
     \<and> (keysAllowed (files (state w)) \<longrightarrow> keysAllowed (files (state w')))
     \<and> (\<forall>k. list_all (\<lambda>q. getRelativePath config (disk w) q \<noteq> k) ps
            \<longrightarrow> map_of (files (state w')) k = map_of (files (state w)) k)"
proof (induction ps arbitrary: w)
  case Nil
  then show ?case by simp
next
  case (Cons p ps)
  obtain r1 w1 where s: "pushEntry config g p w = (r1, w1)"
    by (cases "pushEntry config g p w")
  from pushEntry_run [OF s refl] obtain cs1
    where r: "pushRun (getRelativePath config (disk w) p) w r1 w1 cs1" ..
  show ?case
  proof (cases r1)
    case (Inl e)
    with Cons.prems s have "res = Inl e" "w' = w1" by auto
    with r Inl show ?thesis by (auto simp: pushRun_def)
  next
    case (Inr u)
    with Cons.prems s have l: "pushLoop config g ps w1 = (res, w')" by simp
    from r have d: "disk w1 = disk w" by (simp add: pushRun_def)
    from Cons.IH [OF l] obtain cs2 where
      i: "disk w' = disk w1" "persisted w' = persisted w1" "calls w' = calls w1 @ cs2"
         "list_all transferAllowed cs2" "\<not> isl res \<longrightarrow> \<not> list_ex threwUncaught cs2"
         "keysAllowed (files (state w1)) \<longrightarrow> keysAllowed (files (state w'))"
         "\<forall>k. list_all (\<lambda>q. getRelativePath config (disk w1) q \<noteq> k) ps
            \<longrightarrow> map_of (files (state w')) k = map_of (files (state w1)) k"
      by blast
    from r Inr have nt: "\<not> list_ex threwUncaught cs1" by (simp add: pushRun_def)
    from r i d nt show ?thesis
      unfolding pushRun_def
      by (intro conjI exI [of _ "cs1 @ cs2"]) auto
  qed
qed

section \<open>Evaluation of the sample runs\<close>

lemmas path_defs = path_relative_def path_resolve_def isAbsolute_def path_basename_def
  path_dirname_def path_join_def path_normalize_def takeWhileEnd_def dropWhileEnd_def

lemmas fs_defs = existsSync_def statSync_def readFileSync_def mkdirSync_def writeFileSync_def
  ancestors_def

lemmas engine_defs = pushEntry_def push_def pullEntry_def pull_def pullMissing_def
  handleLocalDelete_def ensureFolderExists_def ensureFolderStep_def nextPath_def
  cachedFolder_def readFolder_def objectPrototypeNames_def getRelativePath_def isExcluded_def
  getExcludedFiles_def
  CONFIG_FILENAME_def STATE_FILENAME_def remote_def setFile_def setFolder_def
  deleteRecord_def saveState_def updateFolder_def startsWith_def shouldDownloadFile_def
  Object_keys_def isArrayIndex_def decimalValue_def Let_def

lemmas drive_defs = driveClient_def failingUploadClient_def failingDeleteClient_def
  failingFindClient_def failingCreateClient_def
  drive_findFolder_def drive_createFolder_def drive_uploadFile_def drive_updateFile_def
  drive_downloadFile_def drive_deleteFile_def drive_listFilesRecursive_def addObject_def
  toFile_def newId_def isFolderNamed_def FOLDER_MIME_def

lemmas sample_defs = sampleFs_def sampleFs2_def sampleRecord_def sampleState_def
  emptyState_def sampleConfig_def emptyDrive_def sampleDrive_def sampleWorld_def
  trackedWorld_def emptyDirFs_def goneWorld_def
  folderDrive_def folderWorld_def cachedWorld_def
  constructorDrive_def constructorWorld_def emptyIdWorld_def
  staleWorld_def staleGoneWorld_def
  conflictDrive_def conflictWorld_def remoteA_def
  dsFs_def dsWorld_def sampleParse_def stateFileFs_def

section \<open>Properties of the conflict decision\<close>

text \<open>
  Claim C1. For a tracked file the decision is Skip exactly when the remote mtime is at
  most the record's remote baseline. Otherwise it is Download when the local copy is
  missing or its mtime is at most the record's local baseline; and when both sides
  changed it is Download exactly when the remote mtime is strictly greater than the
  local mtime, LocalNewer otherwise, so equal mtimes give LocalNewer. The decision is
  always one of the three actions, never an error.
\<close>

theorem shouldDownloadFile_tracked:
  assumes "map_of (files st) relativePath = Some tracked"
  shows
    "(shouldDownloadFile st fs relativePath lp remoteMtime = Inr Skip
        \<longleftrightarrow> remoteMtime \<le> gdriveMtime tracked)
     \<and> (\<exists>a. shouldDownloadFile st fs relativePath lp remoteMtime = Inr a)
     \<and> (\<not> remoteMtime \<le> gdriveMtime tracked \<longrightarrow>
          (\<not> existsSync fs lp \<longrightarrow>
             shouldDownloadFile st fs relativePath lp remoteMtime = Inr Download)
        \<and> (existsSync fs lp \<longrightarrow> (\<exists>stats. statSync fs lp = Inr stats))
        \<and> (\<forall>stats. existsSync fs lp \<and> statSync fs lp = Inr stats \<longrightarrow>
             (mtimeMs stats \<le> localMtime tracked \<longrightarrow>
                shouldDownloadFile st fs relativePath lp remoteMtime = Inr Download)
           \<and> (\<not> mtimeMs stats \<le> localMtime tracked \<longrightarrow>
                (shouldDownloadFile st fs relativePath lp remoteMtime = Inr Download
                   \<longleftrightarrow> remoteMtime > mtimeMs stats)
              \<and> (shouldDownloadFile st fs relativePath lp remoteMtime = Inr LocalNewer
                   \<longleftrightarrow> \<not> remoteMtime > mtimeMs stats)
              \<and> (remoteMtime = mtimeMs stats \<longrightarrow>
                   shouldDownloadFile st fs relativePath lp remoteMtime
                     = Inr LocalNewer))))"
proof (cases "existsSync fs lp")
  case False
  with assms show ?thesis
    by (simp add: shouldDownloadFile_def)
next
  case True
  then obtain n where "statSync fs lp = Inr n"
    using statSync_existsSync by blast
  with True assms show ?thesis
    by (simp add: shouldDownloadFile_def)
qed

theorem shouldDownloadFile_tracked_witness:
  "map_of (files sampleState) ''a'' = Some sampleRecord
   \<and> \<not> (7::real) \<le> gdriveMtime sampleRecord
   \<and> existsSync sampleFs ''/r/a''
   \<and> statSync sampleFs ''/r/a'' = Inr \<lparr>isDirectory = False, mtimeMs = 7, bytes = ''local''\<rparr>
   \<and> \<not> (7::real) \<le> localMtime sampleRecord
   \<and> shouldDownloadFile sampleState sampleFs ''a'' ''/r/a'' 7 = Inr LocalNewer"
proof -
  have t: "map_of (files sampleState) ''a'' = Some sampleRecord"
    by (simp add: sampleState_def)
  have e: "existsSync sampleFs ''/r/a''"
    by (simp add: existsSync_def sampleFs_def path_resolve_def isAbsolute_def)
  have s: "statSync sampleFs ''/r/a''
             = Inr \<lparr>isDirectory = False, mtimeMs = 7, bytes = ''local''\<rparr>"
    by (simp add: statSync_def sampleFs_def path_resolve_def isAbsolute_def)
  have b: "\<not> (7::real) \<le> gdriveMtime sampleRecord" "\<not> (7::real) \<le> localMtime sampleRecord"
    by (simp_all add: sampleRecord_def)
  from shouldDownloadFile_tracked [OF t, of sampleFs "''/r/a''" 7] e s b
  have "shouldDownloadFile sampleState sampleFs ''a'' ''/r/a'' 7 = Inr LocalNewer"
    by auto
  with t e s b show ?thesis by simp
qed

text \<open>
  Claim C2. For an untracked file the decision is Download when no local copy exists;
  when one exists it is Download exactly when the remote mtime is strictly greater than
  the local mtime, and LocalNewer otherwise, ties included.
\<close>

theorem shouldDownloadFile_untracked:
  assumes "map_of (files st) relativePath = None"
  shows
    "(\<not> existsSync fs lp \<longrightarrow>
        shouldDownloadFile st fs relativePath lp remoteMtime = Inr Download)
     \<and> (existsSync fs lp \<longrightarrow> (\<exists>stats. statSync fs lp = Inr stats))
     \<and> (\<forall>stats. existsSync fs lp \<and> statSync fs lp = Inr stats \<longrightarrow>
          (shouldDownloadFile st fs relativePath lp remoteMtime = Inr Download
             \<longleftrightarrow> remoteMtime > mtimeMs stats)
        \<and> (shouldDownloadFile st fs relativePath lp remoteMtime = Inr LocalNewer
             \<longleftrightarrow> \<not> remoteMtime > mtimeMs stats)
        \<and> (remoteMtime = mtimeMs stats \<longrightarrow>
             shouldDownloadFile st fs relativePath lp remoteMtime = Inr LocalNewer))"
proof (cases "existsSync fs lp")
  case False
  with assms show ?thesis
    by (simp add: shouldDownloadFile_def)
next
  case True
  then obtain n where "statSync fs lp = Inr n"
    using statSync_existsSync by blast
  with True assms show ?thesis
    by (simp add: shouldDownloadFile_def)
qed

theorem shouldDownloadFile_untracked_witness:
  "map_of (files emptyState) ''a'' = None
   \<and> existsSync sampleFs ''/r/a''
   \<and> statSync sampleFs ''/r/a'' = Inr \<lparr>isDirectory = False, mtimeMs = 7, bytes = ''local''\<rparr>
   \<and> shouldDownloadFile emptyState sampleFs ''a'' ''/r/a'' 7 = Inr LocalNewer
   \<and> shouldDownloadFile emptyState sampleFs ''a'' ''/r/a'' 8 = Inr Download
   \<and> \<not> existsSync sampleFs ''/r/b''
   \<and> shouldDownloadFile emptyState sampleFs ''b'' ''/r/b'' 0 = Inr Download"
proof -
  have t: "map_of (files emptyState) ''a'' = None" "map_of (files emptyState) ''b'' = None"
    by (simp_all add: emptyState_def)
  have e: "existsSync sampleFs ''/r/a''" "\<not> existsSync sampleFs ''/r/b''"
    by (simp_all add: existsSync_def sampleFs_def path_resolve_def isAbsolute_def)
  have s: "statSync sampleFs ''/r/a''
             = Inr \<lparr>isDirectory = False, mtimeMs = 7, bytes = ''local''\<rparr>"
    by (simp add: statSync_def sampleFs_def path_resolve_def isAbsolute_def)
  from shouldDownloadFile_untracked [OF t(1), of sampleFs "''/r/a''" 7] e s
  have r1: "shouldDownloadFile emptyState sampleFs ''a'' ''/r/a'' 7 = Inr LocalNewer"
    by auto
  from shouldDownloadFile_untracked [OF t(1), of sampleFs "''/r/a''" 8] e s
  have r2: "shouldDownloadFile emptyState sampleFs ''a'' ''/r/a'' 8 = Inr Download"
    by auto
  from shouldDownloadFile_untracked [OF t(2), of sampleFs "''/r/b''" 0] e
  have r3: "shouldDownloadFile emptyState sampleFs ''b'' ''/r/b'' 0 = Inr Download"
    by auto
  from t e s r1 r2 r3 show ?thesis by simp
qed

section \<open>Push: errors\<close>

text \<open>
  Claim C7. When a remote call of a push batch throws out of its entry (an update, an
  upload, or a call of the folder resolution; the error of \<^verbatim>\<open>deleteFile\<close> is caught),
  \<^verbatim>\<open>push\<close> ends with that error in the world the entry left: the entries after it are
  not processed, so the throwing call is the last call issued whatever follows in the
  batch; \<^verbatim>\<open>saveState\<close> is not reached, so the persisted document is the one from
  before the batch; the file records the earlier entries wrote are all in the state, the
  calls they issued stay issued, and the failing entry issues no delete that would undo
  them.
\<close>

theorem push_aborts_on_throw:
  assumes pre: "pushLoop config g pre w = (Inr (), w1)"
    and ent: "pushEntry config g p w1 = (res, w2)"
    and thr: "list_ex threwUncaught (newCalls w1 w2)"
  shows "isl res
     \<and> push config g (pre @ p # post) w = (res, w2)
     \<and> persisted w2 = persisted w
     \<and> files (state w2) = files (state w1)
     \<and> (\<exists>cs1 cs2. calls w1 = calls w @ cs1 \<and> calls w2 = calls w1 @ cs2 \<and> cs2 \<noteq> []
           \<and> threwUncaught (last cs2) \<and> \<not> list_ex isDeleteCall cs2)"
proof -
  from pushEntry_run [OF ent refl] obtain cs2
    where r: "pushRun (getRelativePath config (disk w1) p) w1 res w2 cs2" ..
  then have c2: "calls w2 = calls w1 @ cs2" by (simp add: pushRun_def)
  with thr have "list_ex threwUncaught cs2" by simp
  with r have e: "isl res" by (simp add: pushRun_def)
  then obtain err where res: "res = Inl err" by (cases res) auto
  from pushLoop_run [OF pre] obtain cs1
    where p1: "persisted w1 = persisted w" "calls w1 = calls w @ cs1" by blast
  have "pushLoop config g (pre @ p # post) w = (res, w2)"
    using pre ent res by (simp add: pushLoop_append)
  then have "push config g (pre @ p # post) w = (res, w2)"
    using res by (simp add: push_def)
  with r e p1 c2 show ?thesis
    by (auto simp: pushRun_def)
qed

theorem push_aborts_on_throw_witness:
  "pushLoop sampleConfig failingUploadClient [''/r/a''] trackedWorld
     = (Inr (), snd (pushLoop sampleConfig failingUploadClient [''/r/a''] trackedWorld))
   \<and> list_ex threwUncaught
        (newCalls (snd (pushLoop sampleConfig failingUploadClient [''/r/a''] trackedWorld))
           (snd (pushEntry sampleConfig failingUploadClient ''/r/b''
                  (snd (pushLoop sampleConfig failingUploadClient [''/r/a''] trackedWorld)))))
   \<and> fst (push sampleConfig failingUploadClient [''/r/a'', ''/r/b'', ''/r/a''] trackedWorld)
       = Inl (GDriveError ''500'')
   \<and> persisted (snd (push sampleConfig failingUploadClient [''/r/a'', ''/r/b'', ''/r/a'']
                       trackedWorld)) = None
   \<and> calls (snd (push sampleConfig failingUploadClient [''/r/a'', ''/r/b'', ''/r/a'']
                   trackedWorld))
       = [(''a'', UpdateFile ''id1'' ''local'', Returned),
          (''b'', UploadFile ''b'' ''new'' (FolderId ''root''), Threw)]"
proof -
  define w1 where "w1 = snd (pushLoop sampleConfig failingUploadClient [''/r/a''] trackedWorld)"
  define r2 where "r2 = pushEntry sampleConfig failingUploadClient ''/r/b'' w1"
  have a: "pushLoop sampleConfig failingUploadClient [''/r/a''] trackedWorld = (Inr (), w1)"
    unfolding w1_def
    by (simp add: path_defs fs_defs engine_defs drive_defs sample_defs)
  have c1: "calls w1 = [(''a'', UpdateFile ''id1'' ''local'', Returned)]"
    unfolding w1_def
    by (simp add: path_defs fs_defs engine_defs drive_defs sample_defs)
  have c2: "calls (snd r2) = [(''a'', UpdateFile ''id1'' ''local'', Returned),
          (''b'', UploadFile ''b'' ''new'' (FolderId ''root''), Threw)]"
    unfolding r2_def w1_def
    by (simp add: path_defs fs_defs engine_defs drive_defs sample_defs)
  have f2: "fst r2 = Inl (GDriveError ''500'')"
    unfolding r2_def w1_def
    by (simp add: path_defs fs_defs engine_defs drive_defs sample_defs)
  have b: "pushEntry sampleConfig failingUploadClient ''/r/b'' w1 = (fst r2, snd r2)"
    by (simp add: r2_def)
  have t: "list_ex threwUncaught (newCalls w1 (snd r2))"
    by (simp add: newCalls_def c1 c2 threwUncaught_def)
  have pn: "persisted trackedWorld = None" by (simp add: trackedWorld_def)
  from push_aborts_on_throw [OF a b t, of "[''/r/a'']"] a t f2 c2 pn
  show ?thesis
    by (simp add: w1_def [symmetric] r2_def [symmetric])
qed



section \<open>Folder resolution\<close>






































section \<open>Pull\<close>

lemma keepsNodes_refl [simp]: "keepsNodes fs fs"
  by (simp add: keepsNodes_def)

lemma keepsNodes_trans: "keepsNodes a b \<Longrightarrow> keepsNodes b c \<Longrightarrow> keepsNodes a c"
  by (auto simp: keepsNodes_def)

lemma keepsNodes_exists: "keepsNodes fs fs' \<Longrightarrow> existsSync fs p \<Longrightarrow> existsSync fs' p"
  by (auto simp: keepsNodes_def existsSync_def)

lemma fold_mkdir_keeps:
  "m s \<noteq> None \<Longrightarrow> fold (\<lambda>p m. if m p = None then m(p \<mapsto> v) else m) ps m s \<noteq> None"
  by (induction ps arbitrary: m) auto

lemma fold_mkdir_keeps_Some:
  "m s = Some y \<Longrightarrow> \<exists>z. fold (\<lambda>p m. if m p = None then m(p \<mapsto> v) else m) ps m s = Some z"
  using fold_mkdir_keeps [of m s v ps] by auto

lemma mkdirSync_keeps: "mkdirSync fs dir = Inr fs' \<Longrightarrow> keepsNodes fs fs'"
  by (auto simp: mkdirSync_def keepsNodes_def Let_def fold_mkdir_keeps_Some split: if_splits)

lemma writeFileSync_keeps: "writeFileSync fs p content = Inr fs' \<Longrightarrow> keepsNodes fs fs'"
  by (auto simp: writeFileSync_def keepsNodes_def Let_def split: if_splits option.splits)

lemma LocalNewer_exists:
  "shouldDownloadFile st fs rel lp t = Inr LocalNewer \<Longrightarrow> existsSync fs lp"
  by (auto simp: shouldDownloadFile_def split: option.splits if_splits sum.splits)

lemma pullEntry_run:
  assumes run: "pullEntry config g (rel, rf) batch w = (res, w')"
  shows "\<exists>cs. pullRun {rel} batch w res w' cs"
proof (cases "isExcluded rel \<or> startsWith (mimeType rf) ''application/vnd.google-apps.''")
  case True
  with run have "res = Inr batch" "w' = w"
    by (auto simp: pullEntry_def split: if_splits)
  then show ?thesis
    by (auto simp: pullRun_def list_all_iff)
next
  case False
  define lp where "lp = path_join (localPath config) rel"
  obtain d where d: "shouldDownloadFile (state w) (disk w) rel lp (modifiedTime rf) = d"
    by simp
  show ?thesis
  proof (cases d)
    case (Inl e)
    with run False d show ?thesis
      by (auto simp: pullEntry_def pullRun_def lp_def [symmetric] Let_def list_all_iff)
  next
    case (Inr a)
    show ?thesis
    proof (cases a)
      case Skip
      with run False d Inr show ?thesis
        by (auto simp: pullEntry_def pullRun_def lp_def [symmetric] Let_def list_all_iff)
    next
      case LocalNewer
      with run False d Inr LocalNewer_exists [of "state w" "disk w" rel lp "modifiedTime rf"]
      show ?thesis
        by (auto simp: pullEntry_def pullRun_def lp_def [symmetric] keysAllowed_update
              update_conv' Let_def list_all_iff split: sum.splits)
    next
      case Download
      define dl where "dl = downloadFile g (file_id rf) (gdrive w)"
      define ev where "ev = (rel, DownloadFile (file_id rf),
                             if isl (fst dl) then Threw else Returned)"
      define w1 where "w1 = w\<lparr>gdrive := snd dl, calls := calls w @ [ev]\<rparr>"
      have tev: "transferAllowed ev" "isDownloadCall ev"
        using False by (simp_all add: transferAllowed_def isDownloadCall_def ev_def)
      have c: "(res, w') =
         (case fst dl of
            Inl e \<Rightarrow> (Inl e, w1)
          | Inr content \<Rightarrow>
              (case mkdirSync (disk w1) (path_dirname lp) of
                 Inl e \<Rightarrow> (Inl e, w1)
               | Inr d1 \<Rightarrow>
                   (case writeFileSync d1 lp content of
                      Inl e \<Rightarrow> (Inl e, w1\<lparr>disk := d1\<rparr>)
                    | Inr d2 \<Rightarrow>
                        (case statSync d2 lp of
                           Inl e \<Rightarrow> (Inl e, w1\<lparr>disk := d2\<rparr>)
                         | Inr stats \<Rightarrow>
                             (Inr batch,
                              setFile rel
                                \<lparr>gdriveId = file_id rf, localMtime = mtimeMs stats,
                                  gdriveMtime = modifiedTime rf\<rparr>
                                (w1\<lparr>disk := d2\<rparr>))))))"
        using run False d Inr Download
        by (auto simp: pullEntry_def lp_def [symmetric] remote_eq dl_def ev_def w1_def Let_def
              split: sum.splits)
      have k: "\<And>d1 d2 content. mkdirSync (disk w1) (path_dirname lp) = Inr d1 \<Longrightarrow>
                 writeFileSync d1 lp content = Inr d2 \<Longrightarrow> keepsNodes (disk w) d2"
      proof -
        fix d1 d2 content
        assume m: "mkdirSync (disk w1) (path_dirname lp) = Inr d1"
          and wr: "writeFileSync d1 lp content = Inr d2"
        have "disk w1 = disk w" by (simp add: w1_def)
        with mkdirSync_keeps [OF m] writeFileSync_keeps [OF wr] show "keepsNodes (disk w) d2"
          by (auto intro: keepsNodes_trans)
      qed
      have k1: "\<And>d1. mkdirSync (disk w1) (path_dirname lp) = Inr d1 \<Longrightarrow> keepsNodes (disk w) d1"
        using mkdirSync_keeps [of "disk w1" "path_dirname lp"] by (simp add: w1_def)
      from c tev k k1 False show ?thesis
        unfolding pullRun_def
        by (intro exI [of _ "[ev]"])
           (auto simp: w1_def ev_def keysAllowed_update update_conv' list_all_iff
              split: sum.splits)
    qed
  qed
qed

lemma pullRun_trans:
  "pullRun K1 b w (Inr b1) w1 cs1 \<Longrightarrow> pullRun K2 b1 w1 res w2 cs2
     \<Longrightarrow> pullRun (K1 \<union> K2) b w res w2 (cs1 @ cs2)"
  unfolding pullRun_def
  by (auto simp: list_all_iff intro: keepsNodes_trans dest: keepsNodes_exists
        split: sum.splits)


lemma pullRun_mono: "pullRun K b w res w' cs \<Longrightarrow> K \<subseteq> K' \<Longrightarrow> pullRun K' b w res w' cs"
  unfolding pullRun_def by (auto simp: list_all_iff)

lemma pullLoop_run:
  "pullLoop config g es batch w = (res, w') \<Longrightarrow> \<exists>cs. pullRun (fst ` set es) batch w res w' cs"
proof (induction es arbitrary: batch w)
  case Nil
  then show ?case by (auto simp: pullRun_def list_all_iff)
next
  case (Cons entry es)
  obtain rel rf where en: "entry = (rel, rf)" by (cases entry)
  obtain r1 w1 where s: "pullEntry config g (rel, rf) batch w = (r1, w1)"
    by (cases "pullEntry config g (rel, rf) batch w")
  from pullEntry_run [OF s] obtain cs1 where f: "pullRun {rel} batch w r1 w1 cs1" ..
  show ?case
  proof (cases r1)
    case (Inl e)
    with Cons.prems s en have "res = Inl e" "w' = w1" by auto
    with f Inl en have "pullRun (fst ` set (entry # es)) batch w res w' cs1"
      by (auto intro: pullRun_mono)
    then show ?thesis ..
  next
    case (Inr b1)
    with Cons.prems s en have "pullLoop config g es b1 w1 = (res, w')" by simp
    from Cons.IH [OF this] obtain cs2 where h: "pullRun (fst ` set es) b1 w1 res w' cs2" ..
    from f Inr have "pullRun {rel} batch w (Inr b1) w1 cs1" by simp
    from pullRun_trans [OF this h] en show ?thesis by auto
  qed
qed

lemma fold_updateFolder_frame:
  "files (state (fold updateFolder es w)) = files (state w)
   \<and> disk (fold updateFolder es w) = disk w \<and> gdrive (fold updateFolder es w) = gdrive w
   \<and> persisted (fold updateFolder es w) = persisted w
   \<and> calls (fold updateFolder es w) = calls w"
  by (induction es arbitrary: w) (auto simp: updateFolder_def)

lemma set_Object_keys: "set (Object_keys al) = fst ` set al"
  by (auto simp: Object_keys_def)

text \<open>The third loop.\<close>

lemma fold_pullMissing:
  "fold (pullMissing config L) ks (b, w) = (b', w') \<Longrightarrow>
     disk w' = disk w \<and> calls w' = calls w \<and> persisted w' = persisted w
     \<and> gdrive w' = gdrive w \<and> folders (state w') = folders (state w)
     \<and> (\<forall>k. map_of (files (state w')) k =
              (if k \<in> set ks \<and> map_of L k = None then None else map_of (files (state w)) k))
     \<and> set b' = set b \<union> {path_join (localPath config) k | k.
                             k \<in> set ks \<and> map_of L k = None
                             \<and> existsSync (disk w) (path_join (localPath config) k)}
     \<and> (keysAllowed (files (state w)) \<longrightarrow> keysAllowed (files (state w')))"
proof (induction ks arbitrary: b w)
  case Nil
  then show ?case by simp
next
  case (Cons k ks)
  obtain b1 w1 where s: "pullMissing config L k (b, w) = (b1, w1)"
    by (cases "pullMissing config L k (b, w)")
  with Cons.prems have "fold (pullMissing config L) ks (b1, w1) = (b', w')" by simp
  note ih = Cons.IH [OF this]
  from s have one: "disk w1 = disk w" "calls w1 = calls w" "persisted w1 = persisted w"
    "gdrive w1 = gdrive w" "folders (state w1) = folders (state w)"
    "\<forall>j. map_of (files (state w1)) j =
           (if j = k \<and> map_of L k = None then None else map_of (files (state w)) j)"
    "set b1 = set b \<union> (if map_of L k = None \<and> existsSync (disk w) (path_join (localPath config) k)
                         then {path_join (localPath config) k} else {})"
    "keysAllowed (files (state w)) \<longrightarrow> keysAllowed (files (state w1))"
    by (auto simp: pullMissing_def delete_conv' keysAllowed_delete split: if_splits)
  from ih one show ?case
    by (auto split: if_splits)
qed

subsection \<open>The whole pass\<close>

lemma pull_listing_threw:
  "listFilesRecursive g (gdriveFolderId config) (gdrive w) = (Inl e, r) \<Longrightarrow>
     pull config g w
       = (Inl e, w\<lparr>gdrive := r,
                   calls := calls w @ [([], ListFilesRecursive (gdriveFolderId config), Threw)]\<rparr>)"
  by (simp add: pull_def remote_eq)

lemma pull_listed:
  "listFilesRecursive g (gdriveFolderId config) (gdrive w) = (Inr L, r) \<Longrightarrow>
     pull config g w
       = (case pullLoop config g L []
                 (fold updateFolder L
                    (w\<lparr>gdrive := r,
                       calls := calls w
                         @ [([], ListFilesRecursive (gdriveFolderId config), Returned)]\<rparr>)) of
            (Inl e, w2) \<Rightarrow> (Inl e, w2)
          | (Inr b2, w2) \<Rightarrow>
              (case fold (pullMissing config L) (Object_keys (files (state w2))) (b2, w2) of
                 (b3, w3) \<Rightarrow> (Inr b3, saveState w3)))"
  by (simp add: pull_def remote_eq)

text \<open>What a pass that got its listing \<open>L\<close> leaves alone, whether it returns or throws.\<close>

lemma pull_run:
  assumes l: "listFilesRecursive g (gdriveFolderId config) (gdrive w) = (Inr L, r)"
    and p: "pull config g w = (res, w')"
  shows "keepsNodes (disk w) (disk w')
     \<and> (\<exists>cs. calls w' = calls w @ ([], ListFilesRecursive (gdriveFolderId config), Returned) # cs
             \<and> list_all (\<lambda>ev. fst ev \<in> fst ` set L \<and> isDownloadCall ev) cs
             \<and> list_all transferAllowed cs)
     \<and> (keysAllowed (files (state w)) \<longrightarrow> keysAllowed (files (state w')))
     \<and> (case res of
           Inl e \<Rightarrow> persisted w' = persisted w
         | Inr batch \<Rightarrow>
             persisted w' = Some (state w')
             \<and> (\<forall>k. map_of (files (state w')) k \<noteq> None \<longrightarrow> map_of L k \<noteq> None)
             \<and> (\<forall>k. map_of (files (state w)) k \<noteq> None \<and> map_of L k = None \<longrightarrow>
                    (path_join (localPath config) k \<in> set batch
                      \<longleftrightarrow> existsSync (disk w') (path_join (localPath config) k)))
             \<and> (\<forall>k. map_of L k \<noteq> None \<and> map_of (files (state w)) k \<noteq> None \<longrightarrow>
                    map_of (files (state w')) k \<noteq> None))"
proof -
  define w0 where "w0 = fold updateFolder L
                    (w\<lparr>gdrive := r,
                       calls := calls w
                         @ [([], ListFilesRecursive (gdriveFolderId config), Returned)]\<rparr>)"
  have w0: "files (state w0) = files (state w)" "disk w0 = disk w"
    "persisted w0 = persisted w"
    "calls w0 = calls w @ [([], ListFilesRecursive (gdriveFolderId config), Returned)]"
    by (simp_all add: w0_def fold_updateFolder_frame)
  obtain r2 w2 where lp: "pullLoop config g L [] w0 = (r2, w2)"
    by (cases "pullLoop config g L [] w0")
  from pullLoop_run [OF lp] obtain cs where run: "pullRun (fst ` set L) [] w0 r2 w2 cs" ..
  show ?thesis
  proof (cases r2)
    case (Inl e)
    with pull_listed [OF l] p lp have "res = Inl e" "w' = w2"
      by (simp_all add: w0_def [symmetric])
    with run w0 show ?thesis
      by (auto simp: pullRun_def)
  next
    case (Inr b2)
    obtain b3 w3 where m: "fold (pullMissing config L) (Object_keys (files (state w2))) (b2, w2)
                             = (b3, w3)"
      by (cases "fold (pullMissing config L) (Object_keys (files (state w2))) (b2, w2)")
    with pull_listed [OF l] p lp Inr have e: "res = Inr b3" "w' = saveState w3"
      by (simp_all add: w0_def [symmetric])
    note f = fold_pullMissing [OF m]
    from run Inr have b2: "\<forall>p \<in> set b2. existsSync (disk w2) p"
      by (auto simp: pullRun_def list_all_iff)
    have keep: "\<forall>k. map_of (files (state w)) k \<noteq> None \<longrightarrow> map_of (files (state w2)) k \<noteq> None"
      using run w0 by (auto simp: pullRun_def)
    have k1: "keepsNodes (disk w) (disk w')"
      using run w0 f e by (simp add: pullRun_def)
    have k2: "\<exists>cs. calls w' = calls w @ ([], ListFilesRecursive (gdriveFolderId config), Returned) # cs
             \<and> list_all (\<lambda>ev. fst ev \<in> fst ` set L \<and> isDownloadCall ev) cs
             \<and> list_all transferAllowed cs"
      using run w0 f e by (auto simp: pullRun_def)
    have k3: "keysAllowed (files (state w)) \<longrightarrow> keysAllowed (files (state w'))"
      using run w0 f e by (auto simp: pullRun_def)
    have k4: "persisted w' = Some (state w')" using e by simp
    have k5: "\<forall>k. map_of (files (state w')) k \<noteq> None \<longrightarrow> map_of L k \<noteq> None"
    proof (intro allI impI)
      fix k
      assume a: "map_of (files (state w')) k \<noteq> None"
      from f have q: "map_of (files (state w3)) k =
              (if k \<in> set (Object_keys (files (state w2))) \<and> map_of L k = None then None
               else map_of (files (state w2)) k)"
        by blast
      show "map_of L k \<noteq> None"
      proof
        assume n: "map_of L k = None"
        with a q e have "k \<notin> set (Object_keys (files (state w2)))"
          and "map_of (files (state w2)) k \<noteq> None"
          by (auto split: if_splits)
        then show False
          using map_of_eq_None_iff [of "files (state w2)" k] by (auto simp: set_Object_keys)
      qed
    qed
    have k6: "\<forall>k. map_of (files (state w)) k \<noteq> None \<and> map_of L k = None \<longrightarrow>
                    (path_join (localPath config) k \<in> set b3
                      \<longleftrightarrow> existsSync (disk w') (path_join (localPath config) k))"
    proof (intro allI impI)
      fix k
      assume a: "map_of (files (state w)) k \<noteq> None \<and> map_of L k = None"
      with keep have "k \<in> set (Object_keys (files (state w2)))"
        using map_of_eq_None_iff [of "files (state w2)" k] by (auto simp: set_Object_keys)
      with a f b2 e show "path_join (localPath config) k \<in> set b3
                      \<longleftrightarrow> existsSync (disk w') (path_join (localPath config) k)"
        by auto
    qed
    have k7: "\<forall>k. map_of L k \<noteq> None \<and> map_of (files (state w)) k \<noteq> None \<longrightarrow>
                    map_of (files (state w')) k \<noteq> None"
      using f e keep by auto
    from k1 k2 k3 k4 k5 k6 k7 e show ?thesis by simp
  qed
qed

section \<open>Pull: paths missing on the remote\<close>

text \<open>
  Claim C3. For a path that has a record in \<open>files\<close> and is absent from the listing the
  pass took: a pass that returns has removed the record and saved the state, and its
  batch holds the local path exactly when the local file exists when the third loop looks,
  so it holds it when the file existed at the start. No local file is ever deleted by a
  pass, returning or throwing, and no remote call but the listing is made for that path,
  whether the local file exists or not.
\<close>

theorem pull_untracks_missing_on_remote:
  assumes listing: "listFilesRecursive g (gdriveFolderId config) (gdrive w) = (Inr remoteFiles, r)"
    and tracked: "map_of (files (state w)) rel = Some tracked"
    and absent: "map_of remoteFiles rel = None"
  shows "(\<forall>p. existsSync (disk w) p \<longrightarrow> existsSync (disk (snd (pull config g w))) p)
     \<and> \<not> list_ex (callFor rel) (newCalls w (snd (pull config g w)))
     \<and> (\<forall>batch w'. pull config g w = (Inr batch, w') \<longrightarrow>
          map_of (files (state w')) rel = None
        \<and> persisted w' = Some (state w')
        \<and> (path_join (localPath config) rel \<in> set batch
             \<longleftrightarrow> existsSync (disk w') (path_join (localPath config) rel))
        \<and> (existsSync (disk w) (path_join (localPath config) rel)
             \<longrightarrow> path_join (localPath config) rel \<in> set batch))"
proof -
  obtain res w' where p: "pull config g w = (res, w')"
    by (cases "pull config g w")
  note run = pull_run [OF listing p]
  from run have keep: "keepsNodes (disk w) (disk w')" by simp
  from absent have notin: "rel \<notin> fst ` set remoteFiles"
    by (simp add: map_of_eq_None_iff)
  from run obtain cs where
    cs: "calls w' = calls w @ ([], ListFilesRecursive (gdriveFolderId config), Returned) # cs"
        "list_all (\<lambda>ev. fst ev \<in> fst ` set remoteFiles \<and> isDownloadCall ev) cs"
    by blast
  with notin have nocall: "\<not> list_ex (callFor rel) (newCalls w w')"
    by (auto simp: newCalls_def callFor_def list_all_iff list_ex_iff)
  have a: "\<forall>p. existsSync (disk w) p \<longrightarrow> existsSync (disk (snd (pull config g w))) p"
    using keep p by (auto dest: keepsNodes_exists)
  have b: "\<not> list_ex (callFor rel) (newCalls w (snd (pull config g w)))"
    using nocall p by simp
  have c: "\<forall>batch w''. pull config g w = (Inr batch, w'') \<longrightarrow>
          map_of (files (state w'')) rel = None
        \<and> persisted w'' = Some (state w'')
        \<and> (path_join (localPath config) rel \<in> set batch
             \<longleftrightarrow> existsSync (disk w'') (path_join (localPath config) rel))
        \<and> (existsSync (disk w) (path_join (localPath config) rel)
             \<longrightarrow> path_join (localPath config) rel \<in> set batch)"
  proof (intro allI impI)
    fix batch w''
    assume s: "pull config g w = (Inr batch, w'')"
    note r2 = pull_run [OF listing s]
    from r2 have k: "keepsNodes (disk w) (disk w'')" by simp
    from r2 absent have 1: "map_of (files (state w'')) rel = None" by auto
    from r2 have 2: "persisted w'' = Some (state w'')" by simp
    from r2 tracked absent
    have 3: "path_join (localPath config) rel \<in> set batch
             \<longleftrightarrow> existsSync (disk w'') (path_join (localPath config) rel)"
      by simp
    from 3 k have 4: "existsSync (disk w) (path_join (localPath config) rel)
             \<longrightarrow> path_join (localPath config) rel \<in> set batch"
      by (auto dest: keepsNodes_exists)
    from 1 2 3 4 show "map_of (files (state w'')) rel = None
        \<and> persisted w'' = Some (state w'')
        \<and> (path_join (localPath config) rel \<in> set batch
             \<longleftrightarrow> existsSync (disk w'') (path_join (localPath config) rel))
        \<and> (existsSync (disk w) (path_join (localPath config) rel)
             \<longrightarrow> path_join (localPath config) rel \<in> set batch)"
      by blast
  qed
  from a b c show ?thesis by blast
qed

theorem pull_untracks_missing_on_remote_witness:
  "fst (listFilesRecursive driveClient (gdriveFolderId sampleConfig) (gdrive staleWorld)) = Inr []
   \<and> map_of (files (state staleWorld)) ''a'' = Some sampleRecord
   \<and> existsSync (disk staleWorld) ''/r/a''
   \<and> fst (pull sampleConfig driveClient staleWorld) = Inr [''/r/a'']
   \<and> map_of (files (state (snd (pull sampleConfig driveClient staleWorld)))) ''a'' = None
   \<and> existsSync (disk (snd (pull sampleConfig driveClient staleWorld))) ''/r/a''
   \<and> \<not> list_ex (callFor ''a'') (newCalls staleWorld (snd (pull sampleConfig driveClient staleWorld)))
   \<and> map_of (files (state staleGoneWorld)) ''a'' = Some sampleRecord
   \<and> \<not> existsSync (disk staleGoneWorld) ''/r/a''
   \<and> fst (pull sampleConfig driveClient staleGoneWorld) = Inr []
   \<and> map_of (files (state (snd (pull sampleConfig driveClient staleGoneWorld)))) ''a'' = None
   \<and> \<not> list_ex (callFor ''a'')
          (newCalls staleGoneWorld (snd (pull sampleConfig driveClient staleGoneWorld)))"
proof -
  have l1: "listFilesRecursive driveClient (gdriveFolderId sampleConfig) (gdrive staleWorld)
              = (Inr [], emptyDrive)"
    by (simp add: sample_defs drive_defs)
  have l2: "listFilesRecursive driveClient (gdriveFolderId sampleConfig) (gdrive staleGoneWorld)
              = (Inr [], emptyDrive)"
    by (simp add: sample_defs drive_defs)
  have t1: "map_of (files (state staleWorld)) ''a'' = Some sampleRecord"
    and t2: "map_of (files (state staleGoneWorld)) ''a'' = Some sampleRecord"
    by (simp_all add: sample_defs)
  have n: "map_of ([] :: (string \<times> GDriveFile) list) ''a'' = None" by simp
  have e1: "existsSync (disk staleWorld) ''/r/a''"
    and e2: "\<not> existsSync (disk staleGoneWorld) ''/r/a''"
    by (simp_all add: sample_defs fs_defs path_defs)
  have j: "path_join (localPath sampleConfig) ''a'' = ''/r/a''"
    by (simp add: sample_defs path_defs)
  have p1: "fst (pull sampleConfig driveClient staleWorld) = Inr [''/r/a'']"
    by (simp add: sample_defs drive_defs engine_defs fs_defs path_defs)
  have p2: "fst (pull sampleConfig driveClient staleGoneWorld) = Inr []"
    by (simp add: sample_defs drive_defs engine_defs fs_defs path_defs)
  note w1 = pull_untracks_missing_on_remote [OF l1 t1 n]
  note w2 = pull_untracks_missing_on_remote [OF l2 t2 n]
  have s1: "pull sampleConfig driveClient staleWorld
              = (Inr [''/r/a''], snd (pull sampleConfig driveClient staleWorld))"
    using p1 by (metis prod.collapse)
  have s2: "pull sampleConfig driveClient staleGoneWorld
              = (Inr [], snd (pull sampleConfig driveClient staleGoneWorld))"
    using p2 by (metis prod.collapse)
  from w1 s1 e1 have r1:
    "map_of (files (state (snd (pull sampleConfig driveClient staleWorld)))) ''a'' = None"
    "existsSync (disk (snd (pull sampleConfig driveClient staleWorld))) ''/r/a''"
    "\<not> list_ex (callFor ''a'') (newCalls staleWorld (snd (pull sampleConfig driveClient staleWorld)))"
    by blast+
  from w2 s2 have r2:
    "map_of (files (state (snd (pull sampleConfig driveClient staleGoneWorld)))) ''a'' = None"
    "\<not> list_ex (callFor ''a'')
          (newCalls staleGoneWorld (snd (pull sampleConfig driveClient staleGoneWorld)))"
    by blast+
  from l1 t1 e1 p1 r1 t2 e2 p2 r2 show ?thesis by simp
qed

section \<open>Pull: the local copy wins\<close>







section \<open>Push, then pull\<close>

lemma pullEntry_skip:
  assumes "map_of (files (state w)) rel = Some tracked"
    and "modifiedTime rf \<le> gdriveMtime tracked"
  shows "pullEntry config g (rel, rf) batch w = (Inr batch, w)"
  using assms by (simp add: pullEntry_def shouldDownloadFile_def Let_def)

lemma pullLoop_skips:
  assumes "map_of (files (state w)) rel = Some tracked"
    and "list_all (\<lambda>e. fst e = rel \<longrightarrow> modifiedTime (snd e) \<le> gdriveMtime tracked) es"
    and "pullLoop config g es batch w = (res, w')"
  shows "map_of (files (state w')) rel = Some tracked
     \<and> (\<exists>cs. calls w' = calls w @ cs \<and> \<not> list_ex (callFor rel) cs)"
  using assms
proof (induction es arbitrary: batch w)
  case Nil
  then show ?case by simp
next
  case (Cons entry es)
  obtain k rf where en: "entry = (k, rf)" by (cases entry)
  obtain r1 w1 where s: "pullEntry config g (k, rf) batch w = (r1, w1)"
    by (cases "pullEntry config g (k, rf) batch w")
  have one: "map_of (files (state w1)) rel = Some tracked
     \<and> (\<exists>cs. calls w1 = calls w @ cs \<and> \<not> list_ex (callFor rel) cs)"
  proof (cases "k = rel")
    case True
    with Cons.prems en have "modifiedTime rf \<le> gdriveMtime tracked" by simp
    from pullEntry_skip [OF Cons.prems(1) this, of config g batch] s True
    have "w1 = w" by simp
    with Cons.prems show ?thesis by simp
  next
    case False
    from pullEntry_run [OF s] obtain cs where "pullRun {k} batch w r1 w1 cs" ..
    with False Cons.prems(1) show ?thesis
      by (auto simp: pullRun_def callFor_def list_all_iff list_ex_iff)
  qed
  show ?case
  proof (cases r1)
    case (Inl e)
    with Cons.prems s en have "w' = w1" by auto
    with one show ?thesis by simp
  next
    case (Inr b1)
    with Cons.prems s en have l: "pullLoop config g es b1 w1 = (res, w')" by simp
    from Cons.prems have "list_all (\<lambda>e. fst e = rel \<longrightarrow> modifiedTime (snd e) \<le> gdriveMtime tracked) es"
      by simp
    from Cons.IH [OF _ this l] one show ?thesis by auto
  qed
qed

lemma pull_skips:
  assumes rec: "map_of (files (state w)) rel = Some tracked"
    and listing: "listFilesRecursive g (gdriveFolderId config) (gdrive w) = (Inr L, r)"
    and same: "list_all (\<lambda>e. fst e = rel \<longrightarrow> modifiedTime (snd e) \<le> gdriveMtime tracked) L"
    and listed: "map_of L rel \<noteq> None"
  shows "map_of (files (state (snd (pull config g w)))) rel = Some tracked
     \<and> \<not> list_ex (callFor rel) (newCalls w (snd (pull config g w)))"
proof -
  define w0 where "w0 = fold updateFolder L
                    (w\<lparr>gdrive := r,
                       calls := calls w
                         @ [([], ListFilesRecursive (gdriveFolderId config), Returned)]\<rparr>)"
  have w0: "files (state w0) = files (state w)"
    "calls w0 = calls w @ [([], ListFilesRecursive (gdriveFolderId config), Returned)]"
    by (simp_all add: w0_def fold_updateFolder_frame)
  obtain r2 w2 where lp: "pullLoop config g L [] w0 = (r2, w2)"
    by (cases "pullLoop config g L [] w0")
  from rec w0 have "map_of (files (state w0)) rel = Some tracked" by simp
  from pullLoop_skips [OF this same lp] obtain cs
    where k: "map_of (files (state w2)) rel = Some tracked" "calls w2 = calls w0 @ cs"
      "\<not> list_ex (callFor rel) cs" by blast
  have nc: "\<not> list_ex (callFor rel) (newCalls w w2)"
    using k w0 by (simp add: newCalls_def callFor_def)
  show ?thesis
  proof (cases r2)
    case (Inl e)
    with pull_listed [OF listing] lp have "pull config g w = (Inl e, w2)"
      by (simp add: w0_def [symmetric])
    with k nc show ?thesis by simp
  next
    case (Inr b2)
    obtain b3 w3 where m: "fold (pullMissing config L) (Object_keys (files (state w2))) (b2, w2)
                             = (b3, w3)"
      by (cases "fold (pullMissing config L) (Object_keys (files (state w2))) (b2, w2)")
    with pull_listed [OF listing] lp Inr have e: "pull config g w = (Inr b3, saveState w3)"
      by (simp add: w0_def [symmetric])
    note f = fold_pullMissing [OF m]
    from f k listed have "map_of (files (state w3)) rel = Some tracked" by simp
    moreover from f nc have "\<not> list_ex (callFor rel) (newCalls w (saveState w3))"
      by (simp add: newCalls_def)
    ultimately show ?thesis using e by simp
  qed
qed

lemma pushEntry_new_file:
  assumes rel: "getRelativePath config (disk w) p = rel" and ne: "\<not> isExcluded rel"
    and st: "statSync (disk w) p = Inr stats" and nd: "\<not> isDirectory stats"
    and new: "map_of (files (state w)) rel = None"
    and ok: "pushEntry config g p w = (Inr (), w1)"
  shows "\<exists>created parentId r0 r1.
           uploadFile g (path_basename rel) (bytes stats) parentId r0 = (Inr created, r1)
         \<and> map_of (files (state w1)) rel
             = Some \<lparr>gdriveId = file_id created, localMtime = mtimeMs stats,
                      gdriveMtime = modifiedTime created\<rparr>"
proof -
  from st have ex: "existsSync (disk w) p"
    by (auto simp: existsSync_def statSync_def split: option.splits)
  note rd = readFileSync_file [OF st nd]
  obtain r1 wa where f: "(if path_dirname rel = ''.'' then (Inr (FolderId (gdriveFolderId config)), w)
                     else ensureFolderExists config g (path_dirname rel) w) = (r1, wa)"
    by (cases "(if path_dirname rel = ''.'' then (Inr (FolderId (gdriveFolderId config)), w)
                     else ensureFolderExists config g (path_dirname rel) w)")
  show ?thesis
  proof (cases r1)
    case (Inl e)
    with ok rel ne ex st nd rd new f show ?thesis
      by (simp add: pushEntry_def)
  next
    case (Inr parentId)
    obtain u ru where up: "uploadFile g (path_basename rel) (bytes stats) parentId (gdrive wa)
                             = (u, ru)"
      by (cases "uploadFile g (path_basename rel) (bytes stats) parentId (gdrive wa)")
    show ?thesis
    proof (cases u)
      case (Inl e)
      with ok rel ne ex st nd rd new f Inr up show ?thesis
        by (simp add: pushEntry_def remote_eq)
    next
      case (Inr created)
      with ok rel ne ex st nd rd new f \<open>r1 = Inr parentId\<close> up
      have "map_of (files (state w1)) rel
             = Some \<lparr>gdriveId = file_id created, localMtime = mtimeMs stats,
                      gdriveMtime = modifiedTime created\<rparr>"
        by (auto simp: pushEntry_def remote_eq update_conv')
      with up Inr show ?thesis by blast
    qed
  qed
qed

text \<open>
  Claim C8. When a push batch reaches a new local file (a regular file with no record,
  not excluded) and returns, the upload returned some \<open>created\<close>, the record of the path
  holds the ID and the \<open>modifiedTime\<close> the server reported, and the state is saved. From
  then on the decision for that path at that remote \<open>modifiedTime\<close> is Skip whatever the
  disk holds; and a pull pass on that state whose listing reports the path with that
  \<open>modifiedTime\<close> makes no call but the listing for the path (no download) and leaves the
  record as it is, whether the pass returns or throws.
\<close>

theorem push_then_pull_skips:
  assumes pre: "pushLoop config g pre w0 = (Inr (), w)"
    and rel: "getRelativePath config (disk w) p = rel"
    and ne: "\<not> isExcluded rel"
    and st: "statSync (disk w) p = Inr stats"
    and nd: "\<not> isDirectory stats"
    and new: "map_of (files (state w)) rel = None"
    and later: "list_all (\<lambda>q. getRelativePath config (disk w) q \<noteq> rel) post"
    and pushed: "push config g (pre @ p # post) w0 = (Inr (), w1)"
  shows "\<exists>created parentId r0 r1.
           uploadFile g (path_basename rel) (bytes stats) parentId r0 = (Inr created, r1)
         \<and> map_of (files (state w1)) rel
             = Some \<lparr>gdriveId = file_id created, localMtime = mtimeMs stats,
                      gdriveMtime = modifiedTime created\<rparr>
         \<and> persisted w1 = Some (state w1)
         \<and> (\<forall>d target. shouldDownloadFile (state w1) d rel target (modifiedTime created)
                          = Inr Skip)
         \<and> (\<forall>w2 L r.
               state w2 = state w1
               \<and> listFilesRecursive g (gdriveFolderId config) (gdrive w2) = (Inr L, r)
               \<and> map_of L rel \<noteq> None
               \<and> list_all (\<lambda>e. fst e = rel \<longrightarrow> modifiedTime (snd e) = modifiedTime created) L
               \<longrightarrow>
               map_of (files (state (snd (pull config g w2)))) rel
                 = Some \<lparr>gdriveId = file_id created, localMtime = mtimeMs stats,
                          gdriveMtime = modifiedTime created\<rparr>
               \<and> \<not> list_ex (callFor rel) (newCalls w2 (snd (pull config g w2))))"
proof -
  obtain ra wa where e: "pushEntry config g p w = (ra, wa)"
    by (cases "pushEntry config g p w")
  obtain rb wb where l: "pushLoop config g post wa = (rb, wb)"
    by (cases "pushLoop config g post wa")
  have whole: "pushLoop config g (pre @ p # post) w0 =
                 (case ra of Inl err \<Rightarrow> (Inl err, wa) | Inr u \<Rightarrow> (rb, wb))"
    using pre e l by (simp add: pushLoop_append split: sum.splits)
  from pushed whole have ra: "ra = Inr ()" and rb: "rb = Inr ()" and w1: "w1 = saveState wb"
    by (auto simp: push_def split: sum.splits prod.splits)
  from e ra have e': "pushEntry config g p w = (Inr (), wa)" by simp
  from pushEntry_new_file [OF rel ne st nd new e'] obtain created parentId r0 r1
    where up: "uploadFile g (path_basename rel) (bytes stats) parentId r0 = (Inr created, r1)"
      and fa: "map_of (files (state wa)) rel
             = Some \<lparr>gdriveId = file_id created, localMtime = mtimeMs stats,
                      gdriveMtime = modifiedTime created\<rparr>"
    by blast
  define tracked where "tracked = \<lparr>gdriveId = file_id created, localMtime = mtimeMs stats,
                      gdriveMtime = modifiedTime created\<rparr>"
  from pushEntry_disk [OF e] have da: "disk wa = disk w" .
  from pushLoop_run [OF l] later da fa
  have fb: "map_of (files (state wb)) rel = Some tracked"
    by (auto simp: tracked_def)
  with w1 have f1: "map_of (files (state w1)) rel = Some tracked" by simp
  from w1 have p1: "persisted w1 = Some (state w1)" by simp
  have s1: "\<forall>d target. shouldDownloadFile (state w1) d rel target (modifiedTime created)
                          = Inr Skip"
    using f1 by (simp add: shouldDownloadFile_def tracked_def)
  have s2: "\<forall>w2 L r.
               state w2 = state w1
               \<and> listFilesRecursive g (gdriveFolderId config) (gdrive w2) = (Inr L, r)
               \<and> map_of L rel \<noteq> None
               \<and> list_all (\<lambda>e. fst e = rel \<longrightarrow> modifiedTime (snd e) = modifiedTime created) L
               \<longrightarrow>
               map_of (files (state (snd (pull config g w2)))) rel = Some tracked
               \<and> \<not> list_ex (callFor rel) (newCalls w2 (snd (pull config g w2)))"
  proof (intro allI impI)
    fix w2 :: "'a world" and L r
    assume a: "state w2 = state w1
               \<and> listFilesRecursive g (gdriveFolderId config) (gdrive w2) = (Inr L, r)
               \<and> map_of L rel \<noteq> None
               \<and> list_all (\<lambda>e. fst e = rel \<longrightarrow> modifiedTime (snd e) = modifiedTime created) L"
    with f1 have r2: "map_of (files (state w2)) rel = Some tracked" by simp
    from a have le: "list_all (\<lambda>e. fst e = rel \<longrightarrow> modifiedTime (snd e) \<le> gdriveMtime tracked) L"
      by (auto simp: list_all_iff tracked_def)
    from a pull_skips [OF r2 _ le, of g config r]
    show "map_of (files (state (snd (pull config g w2)))) rel = Some tracked
               \<and> \<not> list_ex (callFor rel) (newCalls w2 (snd (pull config g w2)))"
      by blast
  qed
  from up f1 p1 s1 s2 show ?thesis
    unfolding tracked_def by blast
qed

theorem push_then_pull_skips_witness:
  "pushLoop sampleConfig driveClient [] sampleWorld = (Inr (), sampleWorld)
   \<and> getRelativePath sampleConfig (disk sampleWorld) ''/r/a'' = ''a''
   \<and> \<not> isExcluded ''a''
   \<and> statSync (disk sampleWorld) ''/r/a''
       = Inr \<lparr>isDirectory = False, mtimeMs = 7, bytes = ''local''\<rparr>
   \<and> map_of (files (state sampleWorld)) ''a'' = None
   \<and> fst (push sampleConfig driveClient [''/r/a''] sampleWorld) = Inr ()
   \<and> map_of (files (state (snd (push sampleConfig driveClient [''/r/a''] sampleWorld)))) ''a''
       = Some \<lparr>gdriveId = ''n'', localMtime = 7, gdriveMtime = 50\<rparr>
   \<and> fst (listFilesRecursive driveClient (gdriveFolderId sampleConfig)
            (gdrive (snd (push sampleConfig driveClient [''/r/a''] sampleWorld))))
       = Inr [(''a'', \<lparr>file_id = ''n'', name = ''a'', mimeType = ''application/octet-stream'',
                        modifiedTime = 50\<rparr>)]
   \<and> fst (pull sampleConfig driveClient
            (snd (push sampleConfig driveClient [''/r/a''] sampleWorld))) = Inr []
   \<and> map_of (files (state (snd (pull sampleConfig driveClient
            (snd (push sampleConfig driveClient [''/r/a''] sampleWorld)))))) ''a''
       = Some \<lparr>gdriveId = ''n'', localMtime = 7, gdriveMtime = 50\<rparr>
   \<and> \<not> list_ex (callFor ''a'')
          (newCalls (snd (push sampleConfig driveClient [''/r/a''] sampleWorld))
             (snd (pull sampleConfig driveClient
                (snd (push sampleConfig driveClient [''/r/a''] sampleWorld)))))"
proof -
  define w1 where "w1 = snd (push sampleConfig driveClient [''/r/a''] sampleWorld)"
  define st7 where "st7 = \<lparr>isDirectory = False, mtimeMs = 7, bytes = ''local''\<rparr>"
  define fileN where "fileN = \<lparr>file_id = ''n'', name = ''a'',
                        mimeType = ''application/octet-stream'', modifiedTime = 50\<rparr>"
  have a: "pushLoop sampleConfig driveClient [] sampleWorld = (Inr (), sampleWorld)" by simp
  have b: "getRelativePath sampleConfig (disk sampleWorld) ''/r/a'' = ''a''"
    by (simp add: sample_defs engine_defs path_defs)
  have c: "\<not> isExcluded ''a''" by (simp add: engine_defs path_defs)
  have d: "statSync (disk sampleWorld) ''/r/a'' = Inr st7"
    by (simp add: sample_defs fs_defs path_defs st7_def)
  have nd: "\<not> isDirectory st7" by (simp add: st7_def)
  have n: "map_of (files (state sampleWorld)) ''a'' = None" by (simp add: sample_defs)
  have la: "list_all (\<lambda>q. getRelativePath sampleConfig (disk sampleWorld) q \<noteq> ''a'') []"
    by simp
  have p1: "fst (push sampleConfig driveClient [''/r/a''] sampleWorld) = Inr ()"
    by (simp add: sample_defs drive_defs engine_defs fs_defs path_defs)
  then have p: "push sampleConfig driveClient ([] @ ''/r/a'' # []) sampleWorld = (Inr (), w1)"
    unfolding w1_def by (metis append_Nil prod.collapse)
  have f1: "map_of (files (state w1)) ''a''
              = Some \<lparr>gdriveId = ''n'', localMtime = 7, gdriveMtime = 50\<rparr>"
    unfolding w1_def by (simp add: sample_defs drive_defs engine_defs fs_defs path_defs)
  have l: "listFilesRecursive driveClient (gdriveFolderId sampleConfig) (gdrive w1)
             = (Inr [(''a'', fileN)], gdrive w1)"
    unfolding w1_def fileN_def
    by (simp add: sample_defs drive_defs engine_defs fs_defs path_defs)
  have q1: "fst (pull sampleConfig driveClient w1) = Inr []"
    unfolding w1_def
    by (simp add: sample_defs drive_defs engine_defs fs_defs path_defs)
  have r: "map_of (files (state (snd (pull sampleConfig driveClient w1)))) ''a''
             = Some \<lparr>gdriveId = ''n'', localMtime = 7, gdriveMtime = 50\<rparr>
     \<and> \<not> list_ex (callFor ''a'') (newCalls w1 (snd (pull sampleConfig driveClient w1)))"
    using push_then_pull_skips [OF a b c d nd n la p]
  proof (elim exE conjE)
    fix created parentId r0 r1
    assume k: "map_of (files (state w1)) ''a''
             = Some \<lparr>gdriveId = file_id created, localMtime = mtimeMs st7,
                      gdriveMtime = modifiedTime created\<rparr>"
      and s2: "\<forall>w2 L r.
               state w2 = state w1
               \<and> listFilesRecursive driveClient (gdriveFolderId sampleConfig) (gdrive w2) = (Inr L, r)
               \<and> map_of L ''a'' \<noteq> None
               \<and> list_all (\<lambda>e. fst e = ''a'' \<longrightarrow> modifiedTime (snd e) = modifiedTime created) L
               \<longrightarrow>
               map_of (files (state (snd (pull sampleConfig driveClient w2)))) ''a''
                 = Some \<lparr>gdriveId = file_id created, localMtime = mtimeMs st7,
                          gdriveMtime = modifiedTime created\<rparr>
               \<and> \<not> list_ex (callFor ''a'') (newCalls w2 (snd (pull sampleConfig driveClient w2)))"
    from k f1 have m: "modifiedTime created = 50" "file_id created = ''n''" by simp_all
    have "state w1 = state w1
               \<and> listFilesRecursive driveClient (gdriveFolderId sampleConfig) (gdrive w1)
                   = (Inr [(''a'', fileN)], gdrive w1)
               \<and> map_of [(''a'', fileN)] ''a'' \<noteq> None
               \<and> list_all (\<lambda>e. fst e = ''a'' \<longrightarrow> modifiedTime (snd e) = modifiedTime created)
                    [(''a'', fileN)]"
      using l m by (simp add: fileN_def)
    from s2 [rule_format, OF this] m
    show "map_of (files (state (snd (pull sampleConfig driveClient w1)))) ''a''
             = Some \<lparr>gdriveId = ''n'', localMtime = 7, gdriveMtime = 50\<rparr>
     \<and> \<not> list_ex (callFor ''a'') (newCalls w1 (snd (pull sampleConfig driveClient w1)))"
      by (simp add: st7_def)
  qed
  from a b c d n p1 f1 l q1 r show ?thesis
    unfolding w1_def st7_def fileN_def by simp
qed

section \<open>Excluded names\<close>

lemma push_excludedFree:
  assumes "excludedFree w"
  shows "excludedFree (snd (push config g batch w))"
proof -
  obtain res w1 where l: "pushLoop config g batch w = (res, w1)"
    by (cases "pushLoop config g batch w")
  from pushLoop_run [OF l] assms have e: "excludedFree w1"
    by (auto simp: excludedFree_def)
  show ?thesis
  proof (cases res)
    case (Inl err)
    with l e show ?thesis by (simp add: push_def)
  next
    case (Inr u)
    with l e show ?thesis by (simp add: push_def excludedFree_def)
  qed
qed

lemma pull_excludedFree:
  assumes "excludedFree w"
  shows "excludedFree (snd (pull config g w))"
proof -
  obtain lres r where l: "listFilesRecursive g (gdriveFolderId config) (gdrive w) = (lres, r)"
    by (cases "listFilesRecursive g (gdriveFolderId config) (gdrive w)")
  show ?thesis
  proof (cases lres)
    case (Inl err)
    with l pull_listing_threw [of g config w err r] assms show ?thesis
      by (simp add: excludedFree_def transferAllowed_def)
  next
    case (Inr L)
    obtain res w' where p: "pull config g w = (res, w')"
      by (cases "pull config g w")
    from l Inr have "listFilesRecursive g (gdriveFolderId config) (gdrive w) = (Inr L, r)"
      by simp
    from pull_run [OF this p] assms p show ?thesis
      by (cases res) (auto simp: excludedFree_def transferAllowed_def)
  qed
qed

text \<open>
  Claim C5, as the code has it. In every world an engine can reach, no key of \<open>files\<close>,
  in memory or in the saved document, has an excluded basename, and every upload,
  download, update and delete issued so far was made for a path whose basename is not
  excluded, an upload never carrying an excluded name. Nothing is said of \<open>folders\<close>,
  whose keys are not checked.
\<close>

theorem excluded_names_stay_out:
  "reachable config g w \<Longrightarrow> excludedFree w"
proof (induction rule: reachable.induct)
  case (started w)
  then show ?case by (simp add: excludedFree_def keysAllowed_def)
next
  case (environment w d r)
  then show ?case by (simp add: excludedFree_def)
next
  case (pushed w batch)
  then show ?case by (simp add: push_excludedFree)
next
  case (pulled w)
  then show ?case by (simp add: pull_excludedFree)
next
  case (restarted w st)
  then show ?case by (simp add: excludedFree_def)
qed

theorem excluded_names_stay_out_counterexample:
  "reachable sampleConfig driveClient (snd (push sampleConfig driveClient [''/r/.DS_Store/x''] dsWorld))
   \<and> fst (push sampleConfig driveClient [''/r/.DS_Store/x''] dsWorld) = Inr ()
   \<and> folders (state (snd (push sampleConfig driveClient [''/r/.DS_Store/x''] dsWorld)))
       = [(''.DS_Store'', ''n'')]
   \<and> isExcluded ''.DS_Store''
   \<and> path_basename ''.DS_Store'' = ''.DS_Store''"
proof -
  have "reachable sampleConfig driveClient dsWorld"
    by (rule reachable.started) (simp_all add: dsWorld_def)
  then have "reachable sampleConfig driveClient
               (snd (push sampleConfig driveClient [''/r/.DS_Store/x''] dsWorld))"
    by (rule reachable.pushed)
  moreover have "fst (push sampleConfig driveClient [''/r/.DS_Store/x''] dsWorld) = Inr ()"
    by (simp add: sample_defs drive_defs engine_defs fs_defs path_defs)
  moreover have "folders (state (snd (push sampleConfig driveClient [''/r/.DS_Store/x''] dsWorld)))
       = [(''.DS_Store'', ''n'')]"
    by (simp add: sample_defs drive_defs engine_defs fs_defs path_defs)
  moreover have "isExcluded ''.DS_Store''" "path_basename ''.DS_Store'' = ''.DS_Store''"
    by (simp_all add: engine_defs path_defs)
  ultimately show ?thesis by simp
qed

theorem excluded_names_stay_out_witness:
  "reachable sampleConfig driveClient (snd (push sampleConfig driveClient [''/r/.DS_Store/x''] dsWorld))
   \<and> excludedFree (snd (push sampleConfig driveClient [''/r/.DS_Store/x''] dsWorld))
   \<and> files (state (snd (push sampleConfig driveClient [''/r/.DS_Store/x''] dsWorld)))
       = [(''.DS_Store/x'', \<lparr>gdriveId = ''ni'', localMtime = 7, gdriveMtime = 50\<rparr>)]
   \<and> calls (snd (push sampleConfig driveClient [''/r/.DS_Store/x''] dsWorld))
       = [(''.DS_Store'', FindFolder ''.DS_Store'' (FolderId ''root''), Returned),
          (''.DS_Store'', CreateFolder ''.DS_Store'' (FolderId ''root''), Returned),
          (''.DS_Store/x'', UploadFile ''x'' ''local'' (FolderId ''n''), Returned)]"
proof -
  have "reachable sampleConfig driveClient dsWorld"
    by (rule reachable.started) (simp_all add: dsWorld_def)
  then have r: "reachable sampleConfig driveClient
               (snd (push sampleConfig driveClient [''/r/.DS_Store/x''] dsWorld))"
    by (rule reachable.pushed)
  note e = excluded_names_stay_out [OF r]
  have f: "files (state (snd (push sampleConfig driveClient [''/r/.DS_Store/x''] dsWorld)))
       = [(''.DS_Store/x'', \<lparr>gdriveId = ''ni'', localMtime = 7, gdriveMtime = 50\<rparr>)]"
    by (simp add: sample_defs drive_defs engine_defs fs_defs path_defs)
  have c: "calls (snd (push sampleConfig driveClient [''/r/.DS_Store/x''] dsWorld))
       = [(''.DS_Store'', FindFolder ''.DS_Store'' (FolderId ''root''), Returned),
          (''.DS_Store'', CreateFolder ''.DS_Store'' (FolderId ''root''), Returned),
          (''.DS_Store/x'', UploadFile ''x'' ''local'' (FolderId ''n''), Returned)]"
    by (simp add: sample_defs drive_defs engine_defs fs_defs path_defs)
  from r e f c show ?thesis by simp
qed

section \<open>Loading the state\<close>

text \<open>
  Claim C6, as the code has it. \<^verbatim>\<open>loadState\<close> never throws. When the state file cannot
  be read, or its text is not JSON, the result is the empty document; when the text is
  JSON, the result is the parsed value as it is, whatever its shape.
\<close>

theorem loadState_never_throws:
  "(\<exists>v. loadState JSON_parse fs statePath = Inr v)
   \<and> (\<forall>e. readFileSync fs statePath = Inl e \<longrightarrow>
          loadState JSON_parse fs statePath = Inr emptyDocument)
   \<and> (\<forall>content e. readFileSync fs statePath = Inr content \<and> JSON_parse content = Inl e \<longrightarrow>
          loadState JSON_parse fs statePath = Inr emptyDocument)
   \<and> (\<forall>content v. readFileSync fs statePath = Inr content \<and> JSON_parse content = Inr v \<longrightarrow>
          loadState JSON_parse fs statePath = Inr v)"
  by (auto simp: loadState_def split: sum.splits)

theorem loadState_never_throws_counterexample:
  "readFileSync stateFileFs (path_join ''/r'' STATE_FILENAME) = Inr ''{}''
   \<and> sampleParse ''{}'' = Inr (JObject [])
   \<and> loadState sampleParse stateFileFs (path_join ''/r'' STATE_FILENAME) = Inr (JObject [])
   \<and> \<not> isSyncState (JObject [])
   \<and> JObject [] \<noteq> emptyDocument"
  by (simp add: loadState_def sample_defs fs_defs path_defs STATE_FILENAME_def
        isSyncState_def emptyDocument_def)

theorem loadState_never_throws_witness:
  "readFileSync emptyDirFs (path_join ''/r'' STATE_FILENAME) = Inl ENOENT
   \<and> loadState sampleParse emptyDirFs (path_join ''/r'' STATE_FILENAME) = Inr emptyDocument
   \<and> readFileSync sampleFs ''/r/a'' = Inr ''local''
   \<and> sampleParse ''local'' = Inl SyntaxError
   \<and> loadState sampleParse sampleFs ''/r/a'' = Inr emptyDocument
   \<and> readFileSync stateFileFs (path_join ''/r'' STATE_FILENAME) = Inr ''{}''
   \<and> sampleParse ''{}'' = Inr (JObject [])
   \<and> loadState sampleParse stateFileFs (path_join ''/r'' STATE_FILENAME) = Inr (JObject [])"
proof -
  have a: "readFileSync emptyDirFs (path_join ''/r'' STATE_FILENAME) = Inl ENOENT"
    by (simp add: sample_defs fs_defs path_defs STATE_FILENAME_def)
  have b: "readFileSync sampleFs ''/r/a'' = Inr ''local''"
    "sampleParse ''local'' = Inl SyntaxError"
    by (simp_all add: sample_defs fs_defs path_defs)
  have c: "readFileSync stateFileFs (path_join ''/r'' STATE_FILENAME) = Inr ''{}''"
    "sampleParse ''{}'' = Inr (JObject [])"
    by (simp_all add: sample_defs fs_defs path_defs STATE_FILENAME_def)
  note t1 = loadState_never_throws [of sampleParse emptyDirFs "path_join ''/r'' STATE_FILENAME"]
  note t2 = loadState_never_throws [of sampleParse sampleFs "''/r/a''"]
  note t3 = loadState_never_throws [of sampleParse stateFileFs "path_join ''/r'' STATE_FILENAME"]
  from t1 a have r1: "loadState sampleParse emptyDirFs (path_join ''/r'' STATE_FILENAME)
                        = Inr emptyDocument" by blast
  from t2 b have r2: "loadState sampleParse sampleFs ''/r/a'' = Inr emptyDocument" by blast
  from t3 c have r3: "loadState sampleParse stateFileFs (path_join ''/r'' STATE_FILENAME)
                        = Inr (JObject [])" by blast
  from a b c r1 r2 r3 show ?thesis by blast
qed

end
